theory Spec2Isabelle
  imports
    Complex_Main
    "HOL-Library.AList"
    "HOL-Library.Char_ord"
    "HOL-Library.List_Lexorder"
    "HOL-Library.Product_Lexorder"
begin

section \<open>Values, tables and errors\<close>

text \<open>
  The metrics application of \<^verbatim>\<open>rectools/visuals/metrics_app.py\<close> works on
  pandas tables. A table cell is a string, an integer, a float or a missing value. Floats
  are modelled by exact rationals: rounding is not part of the model. A table is kept
  column by column, in column order, together with its row labels (the index); every
  column of a well-formed table has one value per row label and column names do not
  repeat. The dtype inference of pandas, and failures that depend on a dtype only, are
  outside the model: every column behaves like a column of Python objects.
\<close>

datatype cell = StrV string | IntV int | FltV rat | NaN

datatype error = ValueError | KeyError | StopIteration | TypeError | MergeError

record frame =
  index :: "int list"
  cols :: "(string \<times> cell list) list"

text \<open>A Python value handed in where a table is expected: a table, or anything else.\<close>

datatype pyobj = DataFrame frame | NotDataFrame

definition columns :: "frame \<Rightarrow> string list" where
  "columns t = map fst (cols t)"

definition wf_frame :: "frame \<Rightarrow> bool" where
  "wf_frame t \<longleftrightarrow>
     distinct (columns t) \<and> list_all (\<lambda>c. length (snd c) = length (index t)) (cols t)"

text \<open>
  Modelled from the spec: the column-name constants \<^verbatim>\<open>Columns.Model\<close> and
  \<^verbatim>\<open>Columns.Split\<close> come from the package root, which is not among the sources.
  The fold validator reads the fold column under the literal name \<^verbatim>\<open>i_split\<close> as
  well, so that is the value of \<^verbatim>\<open>Columns.Split\<close>. Of the model column's name
  the proofs use that it differs from the fold column's name and that it does not end in
  \<^verbatim>\<open>_x\<close>, the suffix a join gives to a column name of its left table.
\<close>

definition Columns_Model :: string where
  "Columns_Model = ''model''"

definition Columns_Split :: string where
  "Columns_Split = ''i_split''"

section \<open>The operations of the table library\<close>

text \<open>\<^verbatim>\<open>df[c]\<close>: the column named \<open>c\<close>, a key error when there is none.\<close>

definition getitem :: "frame \<Rightarrow> string \<Rightarrow> error + cell list" where
  "getitem t c = (case map_of (cols t) c of None \<Rightarrow> Inl KeyError | Some vs \<Rightarrow> Inr vs)"

text \<open>
  \<^verbatim>\<open>df[c] = vs\<close>: the column is replaced where it stands, or appended when the
  name is new. The table object itself is changed, so the model returns the new table.
\<close>

definition setitem :: "frame \<Rightarrow> string \<Rightarrow> cell list \<Rightarrow> frame" where
  "setitem t c vs = t\<lparr>cols := AList.update c vs (cols t)\<rparr>"

text \<open>\<^verbatim>\<open>df[[c1, c2, ...]]\<close>: the named columns in the order asked for.\<close>

definition getitem_list :: "frame \<Rightarrow> string list \<Rightarrow> error + frame" where
  "getitem_list t cs =
     (if list_all (\<lambda>c. c \<in> set (columns t)) cs
      then Inr (t\<lparr>cols := map (\<lambda>c. (c, the (map_of (cols t) c))) cs\<rparr>)
      else Inl KeyError)"

definition isnull_any :: "frame \<Rightarrow> bool" where
  "isnull_any t = list_ex (\<lambda>c. NaN \<in> set (snd c)) (cols t)"

text \<open>
  Python compares and hashes an integer and the float of the same value as one key.
  \<open>py_key\<close> maps a cell to the representative of its class. Under \<^verbatim>\<open>==\<close> a
  missing value equals nothing, itself included; to \<^verbatim>\<open>unique\<close>, as a row of
  \<^verbatim>\<open>drop_duplicates\<close> and as a key of a join it is one value.
\<close>

definition py_key :: "cell \<Rightarrow> cell" where
  "py_key v = (case v of
      FltV r \<Rightarrow> (if of_int \<lfloor>r\<rfloor> = r then IntV \<lfloor>r\<rfloor> else FltV r)
    | _ \<Rightarrow> v)"

definition py_eq :: "cell \<Rightarrow> cell \<Rightarrow> bool" where
  "py_eq a b \<longleftrightarrow> a \<noteq> NaN \<and> b \<noteq> NaN \<and> py_key a = py_key b"

text \<open>
  \<^verbatim>\<open>set(a) == set(b)\<close> on the values read from two columns. A missing value comes
  out of a column as a new float object each time, which is equal to no member of the
  other set: two sets are equal when they hold the same keys and no missing value.
\<close>

definition py_set_eq :: "cell set \<Rightarrow> cell set \<Rightarrow> bool" where
  "py_set_eq A B \<longleftrightarrow> A = B \<and> NaN \<notin> A \<and> NaN \<notin> B"

text \<open>Decimal rendering of integers, as \<^verbatim>\<open>str\<close> gives it.\<close>

definition digit :: "nat \<Rightarrow> char" where
  "digit n = ''0123456789'' ! n"

fun str_nat :: "nat \<Rightarrow> string" where
  "str_nat n = (if n < 10 then [digit n] else str_nat (n div 10) @ [digit (n mod 10)])"

definition str_int :: "int \<Rightarrow> string" where
  "str_int i = (if i < 0 then CHR ''-'' # str_nat (nat (- i)) else str_nat (nat i))"

text \<open>
  \<^verbatim>\<open>.astype(str)\<close> on one cell. The text of a float is the interpreter's shortest
  round-trip rendering, which is not a function of this repository: it is the parameter
  \<open>float_repr\<close>.
\<close>

definition astype_str :: "(rat \<Rightarrow> string) \<Rightarrow> cell \<Rightarrow> cell" where
  "astype_str float_repr v = (case v of
      StrV s \<Rightarrow> StrV s
    | IntV i \<Rightarrow> StrV (str_int i)
    | FltV r \<Rightarrow> StrV (float_repr r)
    | NaN \<Rightarrow> StrV ''nan'')"

text \<open>
  \<^verbatim>\<open>.str.replace(old, new)\<close> on one cell, for a pattern of one character; a cell
  that is no string becomes a missing value.
\<close>

definition str_replace :: "char \<Rightarrow> char \<Rightarrow> cell \<Rightarrow> cell" where
  "str_replace old new v = (case v of
      StrV s \<Rightarrow> StrV (map (\<lambda>c. if c = old then new else c) s)
    | _ \<Rightarrow> NaN)"

text \<open>\<^verbatim>\<open>a + b\<close> on two cells of string columns: concatenation.\<close>

definition str_add :: "cell \<Rightarrow> cell \<Rightarrow> cell" where
  "str_add a b = (case (a, b) of (StrV x, StrV y) \<Rightarrow> StrV (x @ y) | _ \<Rightarrow> NaN)"

text \<open>
  \<^verbatim>\<open>unique()\<close>: the distinct values in the order of their first appearance;
  \<^verbatim>\<open>nunique()\<close> counts them, missing values left out.
\<close>

fun unique_by :: "('a \<Rightarrow> 'b) \<Rightarrow> 'a list \<Rightarrow> 'a list" where
  "unique_by f [] = []"
| "unique_by f (x # xs) = x # unique_by f (filter (\<lambda>y. f y \<noteq> f x) xs)"

definition unique :: "cell list \<Rightarrow> cell list" where
  "unique vs = unique_by py_key vs"

definition nunique :: "cell list \<Rightarrow> nat" where
  "nunique vs = length (unique (filter (\<lambda>v. v \<noteq> NaN) vs))"

text \<open>\<^verbatim>\<open>df[mask]\<close>: the rows at which the boolean mask holds, labels kept.\<close>

definition pick :: "bool list \<Rightarrow> 'a list \<Rightarrow> 'a list" where
  "pick bs xs = map snd (filter fst (zip bs xs))"

definition getitem_mask :: "frame \<Rightarrow> bool list \<Rightarrow> frame" where
  "getitem_mask t bs =
     \<lparr>index = pick bs (index t), cols = map (\<lambda>c. (fst c, pick bs (snd c))) (cols t)\<rparr>"

text \<open>Rows by position, as the library's \<^verbatim>\<open>take\<close>.\<close>

definition take_rows :: "frame \<Rightarrow> nat list \<Rightarrow> frame" where
  "take_rows t ps =
     \<lparr>index = map (\<lambda>p. index t ! p) ps,
      cols = map (\<lambda>c. (fst c, map (\<lambda>p. snd c ! p) ps)) (cols t)\<rparr>"

definition range_index :: "nat \<Rightarrow> int list" where
  "range_index n = map int [0..<n]"

text \<open>\<^verbatim>\<open>reset_index(drop=True)\<close>: the row labels become \<open>0, 1, 2, ...\<close>.\<close>

definition reset_index :: "frame \<Rightarrow> frame" where
  "reset_index t = t\<lparr>index := range_index (length (index t))\<rparr>"

text \<open>
  \<^verbatim>\<open>drop_duplicates()\<close>: of rows that agree in every column the first is kept.
\<close>

definition row_key :: "frame \<Rightarrow> nat \<Rightarrow> cell list" where
  "row_key t p = map (\<lambda>c. py_key (snd c ! p)) (cols t)"

definition drop_duplicates :: "frame \<Rightarrow> frame" where
  "drop_duplicates t = take_rows t (unique_by (row_key t) [0..<length (index t)])"

text \<open>
  The order in which \<^verbatim>\<open>groupby\<close> sorts its keys: numbers before strings, numbers
  by value, strings by code point.
\<close>

definition sort_rank :: "cell \<Rightarrow> nat \<times> rat \<times> string" where
  "sort_rank v = (case v of
      IntV i \<Rightarrow> (0, of_int i, [])
    | FltV r \<Rightarrow> (0, r, [])
    | StrV s \<Rightarrow> (1, 0, s)
    | NaN \<Rightarrow> (2, 0, []))"

text \<open>
  \<^verbatim>\<open>df.groupby(c)\<close>: the groups as pairs of key and sub-table, rows with a missing
  key left out; keys sorted unless \<open>sort\<close> is off, and then in order of first appearance.
\<close>

definition group_keys :: "bool \<Rightarrow> cell list \<Rightarrow> cell list" where
  "group_keys sort_keys vs =
     (let ks = unique (filter (\<lambda>v. v \<noteq> NaN) vs)
      in if sort_keys then sort_key sort_rank ks else ks)"

definition groupby :: "frame \<Rightarrow> string \<Rightarrow> bool \<Rightarrow> error + (cell \<times> frame) list" where
  "groupby t c sort_keys = (case getitem t c of
      Inl e \<Rightarrow> Inl e
    | Inr vs \<Rightarrow>
        Inr (map (\<lambda>k. (k, getitem_mask t (map (\<lambda>v. py_eq v k) vs)))
               (group_keys sort_keys vs)))"

text \<open>
  \<^verbatim>\<open>left.merge(right, on=c, how="left")\<close>. Every row of the left table is kept,
  in order, once for each row of the right table with the same key, and once with missing
  values when there is none. A column name other than the key that both tables have gets
  the suffixes \<^verbatim>\<open>_x\<close> and \<^verbatim>\<open>_y\<close>; suffixes that make two names of one side
  equal are refused. The result has fresh row labels.
\<close>

definition join_positions :: "cell list \<Rightarrow> cell list \<Rightarrow> (nat \<times> nat option) list" where
  "join_positions lk rk =
     concat (map (\<lambda>i.
        let js = filter (\<lambda>j. py_key (rk ! j) = py_key (lk ! i)) [0..<length rk]
        in if js = [] then [(i, None)] else map (\<lambda>j. (i, Some j)) js) [0..<length lk])"

definition merge :: "frame \<Rightarrow> frame \<Rightarrow> string \<Rightarrow> error + frame" where
  "merge l r c = (case getitem l c of
      Inl e \<Rightarrow> Inl e
    | Inr lk \<Rightarrow> (case getitem r c of
        Inl e \<Rightarrow> Inl e
      | Inr rk \<Rightarrow>
          let ps = join_positions lk rk;
              overlap = filter (\<lambda>n. n \<noteq> c \<and> n \<in> set (columns r)) (columns l);
              lcols = map (\<lambda>lc. (if fst lc \<in> set overlap then fst lc @ ''_x'' else fst lc,
                                  map (\<lambda>p. snd lc ! fst p) ps)) (cols l);
              rcols = map (\<lambda>rc. (if fst rc \<in> set overlap then fst rc @ ''_y'' else fst rc,
                                  map (\<lambda>p. case snd p of None \<Rightarrow> NaN | Some j \<Rightarrow> snd rc ! j) ps))
                        (filter (\<lambda>rc. fst rc \<noteq> c) (cols r))
          in if distinct (map fst lcols) \<and> distinct (map fst rcols)
             then Inr \<lparr>index = range_index (length ps), cols = lcols @ rcols\<rparr>
             else Inl MergeError))"

text \<open>
  The arithmetic mean of a column's values, missing values left out; no value at all
  gives a missing value, and a string among them is a type error.
\<close>

definition is_str :: "cell \<Rightarrow> bool" where
  "is_str v = (case v of StrV s \<Rightarrow> True | _ \<Rightarrow> False)"

definition num_val :: "cell \<Rightarrow> rat" where
  "num_val v = (case v of IntV i \<Rightarrow> of_int i | FltV r \<Rightarrow> r | _ \<Rightarrow> 0)"

definition mean :: "cell list \<Rightarrow> error + cell" where
  "mean vs =
     (let xs = filter (\<lambda>v. v \<noteq> NaN) vs
      in if list_ex is_str xs then Inl TypeError
         else if xs = [] then Inr NaN
         else Inr (FltV (sum_list (map num_val xs) / of_nat (length xs))))"

fun sequence_err :: "(error + 'a) list \<Rightarrow> error + 'a list" where
  "sequence_err [] = Inr []"
| "sequence_err (x # xs) = (case x of
      Inl e \<Rightarrow> Inl e
    | Inr v \<Rightarrow> (case sequence_err xs of Inl e \<Rightarrow> Inl e | Inr vs \<Rightarrow> Inr (v # vs)))"

text \<open>
  \<^verbatim>\<open>df.groupby([c], sort=...).mean().reset_index()\<close>: one row per group, the key in
  the first column, then the mean of every other column over the group's rows.
\<close>

definition groupby_mean :: "frame \<Rightarrow> string \<Rightarrow> bool \<Rightarrow> error + frame" where
  "groupby_mean t c sort_keys = (case groupby t c sort_keys of
      Inl e \<Rightarrow> Inl e
    | Inr gs \<Rightarrow>
        (case sequence_err (map (\<lambda>n.
                 case sequence_err (map (\<lambda>g.
                        case getitem (snd g) n of Inl e \<Rightarrow> Inl e | Inr vs \<Rightarrow> mean vs) gs) of
                   Inl e \<Rightarrow> Inl e
                 | Inr ms \<Rightarrow> Inr (n, ms))
               (filter (\<lambda>n. n \<noteq> c) (columns t))) of
           Inl e \<Rightarrow> Inl e
         | Inr mcols \<Rightarrow>
             Inr \<lparr>index = range_index (length gs), cols = (c, map fst gs) # mcols\<rparr>))"

text \<open>
  \<^verbatim>\<open>sorted(...)\<close> on a list of cells. Strings do not compare with other values. The
  place Python gives a missing value among numbers depends on where it stood and is not
  modelled: it is put last.
\<close>

definition py_sorted :: "cell list \<Rightarrow> error + cell list" where
  "py_sorted vs =
     (if list_ex is_str vs \<and> \<not> list_all is_str vs then Inl TypeError
      else Inr (sort_key sort_rank vs))"

section \<open>The validators\<close>

definition validate_models_metrics_base :: "pyobj \<Rightarrow> error + unit" where
  "validate_models_metrics_base models_metrics = (case models_metrics of
      NotDataFrame \<Rightarrow> Inl ValueError
    | DataFrame t \<Rightarrow>
        if Columns_Model \<notin> set (columns t) then Inl KeyError
        else if length (filter (\<lambda>item. item \<notin> {Columns_Model, Columns_Split}) (columns t)) < 1
          then Inl KeyError
        else if isnull_any t then Inl ValueError
        else Inr ())"

text \<open>
  The loop of the fold validator over the groups; \<open>ref_fold_count\<close> and
  \<open>ref_fold_names\<close> are those of the first group.
\<close>

fun check_groups :: "nat \<Rightarrow> cell set \<Rightarrow> (cell \<times> frame) list \<Rightarrow> error + unit" where
  "check_groups ref_fold_count ref_fold_names [] = Inr ()"
| "check_groups ref_fold_count ref_fold_names (g # gs) = (case getitem (snd g) ''i_split'' of
      Inl e \<Rightarrow> Inl e
    | Inr folds \<Rightarrow>
        if nunique folds \<noteq> ref_fold_count then Inl ValueError
        else if \<not> py_set_eq (set (map py_key (unique folds))) ref_fold_names
          then Inl ValueError
        else check_groups ref_fold_count ref_fold_names gs)"

definition validate_models_metrics_split :: "frame \<Rightarrow> error + unit" where
  "validate_models_metrics_split models_metrics =
     (if Columns_Split \<notin> set (columns models_metrics) then Inr ()
      else case groupby models_metrics Columns_Model True of
          Inl e \<Rightarrow> Inl e
        | Inr grouped \<Rightarrow> (case grouped of
            [] \<Rightarrow> Inl StopIteration
          | g # _ \<Rightarrow> (case getitem (snd g) Columns_Split of
              Inl e \<Rightarrow> Inl e
            | Inr ref_folds \<Rightarrow>
                check_groups (nunique ref_folds) (set (map py_key (unique ref_folds))) grouped)))"

text \<open>
  The uniqueness validator assigns to the model column of the table it is given, so it
  returns the table as it leaves it together with its outcome.
\<close>

definition validate_models_metrics_names ::
    "(rat \<Rightarrow> string) \<Rightarrow> frame \<Rightarrow> frame \<times> (error + unit)" where
  "validate_models_metrics_names float_repr models_metrics =
     (if Columns_Split \<in> set (columns models_metrics) then
        (case getitem models_metrics Columns_Model of
           Inl e \<Rightarrow> (models_metrics, Inl e)
         | Inr ms \<Rightarrow>
             let t = setitem models_metrics Columns_Model
                       (map (str_replace CHR '' '' CHR ''_'' \<circ> astype_str float_repr) ms)
             in (case getitem t Columns_Model of
                   Inl e \<Rightarrow> (t, Inl e)
                 | Inr ms' \<Rightarrow> (case getitem t Columns_Split of
                     Inl e \<Rightarrow> (t, Inl e)
                   | Inr ss \<Rightarrow>
                       let models_names_comb = map2 str_add ms' (map (astype_str float_repr) ss)
                       in if nunique models_names_comb \<noteq> length models_names_comb
                          then (t, Inl ValueError) else (t, Inr ()))))
      else
        (case getitem models_metrics Columns_Model of
           Inl e \<Rightarrow> (models_metrics, Inl e)
         | Inr ms \<Rightarrow>
             let t = setitem models_metrics Columns_Model
                       (map (str_replace CHR '' '' CHR ''_'' \<circ> astype_str float_repr) ms)
             in (case getitem t Columns_Model of
                   Inl e \<Rightarrow> (t, Inl e)
                 | Inr ms' \<Rightarrow>
                     if nunique ms' \<noteq> length ms' then (t, Inl ValueError) else (t, Inr ()))))"

definition validate_models_metadata :: "pyobj \<Rightarrow> error + unit" where
  "validate_models_metadata models_metadata = (case models_metadata of
      NotDataFrame \<Rightarrow> Inl ValueError
    | DataFrame t \<Rightarrow>
        if Columns_Model \<notin> set (columns t) then Inl KeyError
        else (case getitem t Columns_Model of
            Inl e \<Rightarrow> Inl e
          | Inr ms \<Rightarrow>
              if nunique ms \<noteq> length (index t) then Inl ValueError
              else if NaN \<in> set ms then Inl ValueError
              else Inr ()))"

section \<open>The application object\<close>

text \<open>
  The fields of \<^verbatim>\<open>MetricsApp\<close>, and the two memo tables that \<^verbatim>\<open>lru_cache\<close>
  keeps for the views of this object: the fold views by fold number, most recently used
  first, and the average view. The figure and the widgets are drawn by the charting
  library and are not part of the model.
\<close>

record app =
  data :: frame
  metric_names :: "string list"
  meta_names :: "string list"
  show_legend :: bool
  auto_display :: bool
  scatter_kwargs :: "(string \<times> cell) list"
  fold_cache :: "(cell \<times> frame) list"
  avg_cache :: "frame option"

definition init :: "frame \<Rightarrow> string list \<Rightarrow> string list \<Rightarrow> bool \<Rightarrow> bool \<Rightarrow>
    (string \<times> cell) list option \<Rightarrow> app" where
  "init d metric_names' meta_names' show_legend' auto_display' scatter_kwargs' =
     \<lparr>data = d, metric_names = metric_names', meta_names = meta_names',
      show_legend = show_legend', auto_display = auto_display',
      scatter_kwargs = (case scatter_kwargs' of Some kw \<Rightarrow> kw | None \<Rightarrow> []),
      fold_cache = [], avg_cache = None\<rparr>"

text \<open>
  \<^verbatim>\<open>models_metrics[Columns.Model].drop_duplicates().to_frame()\<close>: the table of the
  model column alone, one row for each model.
\<close>

definition default_metadata :: "frame \<Rightarrow> error + frame" where
  "default_metadata models_metrics = (case getitem models_metrics Columns_Model of
      Inl e \<Rightarrow> Inl e
    | Inr ms \<Rightarrow>
        Inr (drop_duplicates \<lparr>index = index models_metrics, cols = [(Columns_Model, ms)]\<rparr>))"

text \<open>
  \<^verbatim>\<open>MetricsApp.construct\<close>. The first component of the result is the caller's metrics
  object as the call leaves it, the second the error raised or the application built.
  What \<^verbatim>\<open>display\<close> draws when \<open>auto_display\<close> is set is not part of the model.
\<close>

definition construct :: "(rat \<Rightarrow> string) \<Rightarrow> pyobj \<Rightarrow> pyobj option \<Rightarrow> bool \<Rightarrow> bool \<Rightarrow>
    (string \<times> cell) list option \<Rightarrow> pyobj \<times> (error + app)" where
  "construct float_repr models_metrics models_metadata show_legend' auto_display' scatter_kwargs' =
     (case validate_models_metrics_base models_metrics of
        Inl e \<Rightarrow> (models_metrics, Inl e)
      | Inr _ \<Rightarrow> (case models_metrics of
          NotDataFrame \<Rightarrow> (models_metrics, Inl ValueError)
        | DataFrame t0 \<Rightarrow> (case validate_models_metrics_split t0 of
            Inl e \<Rightarrow> (models_metrics, Inl e)
          | Inr _ \<Rightarrow> (case validate_models_metrics_names float_repr t0 of
              (t, Inl e) \<Rightarrow> (DataFrame t, Inl e)
            | (t, Inr _) \<Rightarrow>
                (case (case models_metadata of
                         None \<Rightarrow> map_sum id DataFrame (default_metadata t)
                       | Some m \<Rightarrow> Inr m) of
                   Inl e \<Rightarrow> (DataFrame t, Inl e)
                 | Inr md \<Rightarrow> (case validate_models_metadata md of
                     Inl e \<Rightarrow> (DataFrame t, Inl e)
                   | Inr _ \<Rightarrow> (case md of
                       NotDataFrame \<Rightarrow> (DataFrame t, Inl ValueError)
                     | DataFrame m \<Rightarrow> (case merge t m Columns_Model of
                         Inl e \<Rightarrow> (DataFrame t, Inl e)
                       | Inr merged \<Rightarrow> (case getitem merged Columns_Model of
                           Inl e \<Rightarrow> (DataFrame t, Inl e)
                         | Inr ms \<Rightarrow>
                             let merged_data = setitem merged Columns_Model
                                                 (map (str_replace CHR '' '' CHR ''_'') ms);
                                 metric_names' = filter (\<lambda>col. col \<notin> {Columns_Split, Columns_Model})
                                                   (columns t);
                                 meta_names' = filter (\<lambda>col. col \<noteq> Columns_Model) (columns m)
                             in (DataFrame t,
                                 Inr (init merged_data metric_names' meta_names'
                                        show_legend' auto_display' scatter_kwargs')))))))))))"

text \<open>
  \<^verbatim>\<open>model_names\<close> and \<^verbatim>\<open>fold_ids\<close>, the two queries. They are functions of the
  data alone, so their memo tables are left out.
\<close>

definition model_names :: "app \<Rightarrow> error + cell list" where
  "model_names a = (case getitem (data a) Columns_Model of
      Inl e \<Rightarrow> Inl e
    | Inr ms \<Rightarrow> py_sorted (unique ms))"

definition fold_ids :: "app \<Rightarrow> error + cell list option" where
  "fold_ids a =
     (if Columns_Split \<in> set (columns (data a)) then
        (case getitem (data a) Columns_Split of
           Inl e \<Rightarrow> Inl e
         | Inr ss \<Rightarrow> map_sum id Some (py_sorted (unique ss)))
      else Inr None)"

section \<open>The two views and their memo tables\<close>

text \<open>The bodies of the two view methods, as functions of the object's fields.\<close>

definition chart_data_fold :: "frame \<Rightarrow> cell \<Rightarrow> error + frame" where
  "chart_data_fold d fold_number = (case getitem d Columns_Split of
      Inl e \<Rightarrow> Inl e
    | Inr ss \<Rightarrow> Inr (reset_index (getitem_mask d (map (\<lambda>v. py_eq v fold_number) ss))))"

definition chart_data_avg :: "frame \<Rightarrow> string list \<Rightarrow> string list \<Rightarrow> error + frame" where
  "chart_data_avg d metric_names' meta_names' =
     (case getitem_list d (Columns_Model # metric_names') of
        Inl e \<Rightarrow> Inl e
      | Inr sel \<Rightarrow> (case groupby_mean sel Columns_Model False of
          Inl e \<Rightarrow> Inl e
        | Inr metrics_data \<Rightarrow> (case getitem_list d (Columns_Model # meta_names') of
            Inl e \<Rightarrow> Inl e
          | Inr sel' \<Rightarrow>
              let meta_data = drop_duplicates sel'
              in (case merge metrics_data meta_data Columns_Model of
                    Inl e \<Rightarrow> Inl e
                  | Inr r \<Rightarrow> Inr (reset_index r)))))"

text \<open>
  \<^verbatim>\<open>lru_cache\<close> keeps at most 128 results; a call that raises stores nothing. A hit
  moves the entry to the front, a miss past the bound drops the entry used longest ago.
\<close>

definition lru_maxsize :: nat where
  "lru_maxsize = 128"

definition make_chart_data_fold :: "app \<Rightarrow> cell \<Rightarrow> (error + frame) \<times> app" where
  "make_chart_data_fold a fold_number = (case map_of (fold_cache a) (py_key fold_number) of
      Some v \<Rightarrow>
        (Inr v, a\<lparr>fold_cache := (py_key fold_number, v) #
                     filter (\<lambda>e. fst e \<noteq> py_key fold_number) (fold_cache a)\<rparr>)
    | None \<Rightarrow> (case chart_data_fold (data a) fold_number of
        Inl e \<Rightarrow> (Inl e, a)
      | Inr v \<Rightarrow>
          (Inr v, a\<lparr>fold_cache := take lru_maxsize ((py_key fold_number, v) # fold_cache a)\<rparr>)))"

definition make_chart_data_avg :: "app \<Rightarrow> (error + frame) \<times> app" where
  "make_chart_data_avg a = (case avg_cache a of
      Some v \<Rightarrow> (Inr v, a)
    | None \<Rightarrow> (case chart_data_avg (data a) (metric_names a) (meta_names a) of
        Inl e \<Rightarrow> (Inl e, a)
      | Inr v \<Rightarrow> (Inr v, a\<lparr>avg_cache := Some v\<rparr>)))"

text \<open>
  \<^verbatim>\<open>_create_chart_data\<close>: \<open>use_avg\<close> is the value of the check box, \<open>fold_i\<close> the
  value of the fold selector, \<open>None\<close> when nothing is selected.
\<close>

definition create_chart_data :: "app \<Rightarrow> bool \<Rightarrow> cell option \<Rightarrow> (error + frame) \<times> app" where
  "create_chart_data a use_avg fold_i =
     (if use_avg \<or> fold_i = None then make_chart_data_avg a
      else make_chart_data_fold a (the fold_i))"

section \<open>The life of an application object\<close>

text \<open>
  After construction the object is only asked for views: by the callbacks of the
  widgets, through \<^verbatim>\<open>_create_chart_data\<close>, or by a direct call of one of the two
  view methods. \<open>run\<close> serves a sequence of such requests.
\<close>

datatype request = FoldView cell | AverageView | ChartData bool "cell option"

fun handle :: "app \<Rightarrow> request \<Rightarrow> app" where
  "handle a (FoldView fold_number) = snd (make_chart_data_fold a fold_number)"
| "handle a AverageView = snd (make_chart_data_avg a)"
| "handle a (ChartData use_avg fold_i) = snd (create_chart_data a use_avg fold_i)"

definition run :: "app \<Rightarrow> request list \<Rightarrow> app" where
  "run a rs = foldl handle a rs"

section \<open>Vocabulary of the statements\<close>

text \<open>
  The values of a column, none when the table has no such column; and the fold
  identifiers of a model: the keys of the fold values on the rows whose model is \<open>m\<close>.
\<close>

definition column :: "frame \<Rightarrow> string \<Rightarrow> cell list" where
  "column t c = (case map_of (cols t) c of None \<Rightarrow> [] | Some vs \<Rightarrow> vs)"

definition fold_ids_of :: "frame \<Rightarrow> cell \<Rightarrow> cell set" where
  "fold_ids_of t m =
     set (map (\<lambda>p. py_key (snd p))
            (filter (\<lambda>p. py_eq (fst p) m) (zip (column t Columns_Model) (column t Columns_Split))))"

text \<open>
  The identifier the uniqueness validator makes of a model value: its text, with every
  space replaced by an underscore.
\<close>

definition model_id :: "(rat \<Rightarrow> string) \<Rightarrow> cell \<Rightarrow> cell" where
  "model_id float_repr v = str_replace CHR '' '' CHR ''_'' (astype_str float_repr v)"


section \<open>Tables of the test suite and of the examples\<close>

text \<open>The three metrics tables of \<^verbatim>\<open>tests/visuals/test_metrics_app.py\<close>.\<close>

definition DF_METRICS :: frame where
  "DF_METRICS = \<lparr>index = [0, 1, 2, 3, 4, 5], cols = [
     (''model'', [StrV ''Model1'', StrV ''Model2'', StrV ''Model1'',
                  StrV ''Model2'', StrV ''Model1'', StrV ''Model2'']),
     (''i_split'', [IntV 0, IntV 0, IntV 1, IntV 1, IntV 2, IntV 2]),
     (''prec@10'', [FltV (1 / 10), FltV (2 / 10), FltV (3 / 10),
                    FltV (4 / 10), FltV (5 / 10), FltV (6 / 10)]),
     (''recall'', [FltV (1 / 10), FltV (2 / 10), FltV (3 / 10),
                   FltV (4 / 10), FltV (5 / 10), FltV (6 / 10)])]\<rparr>"

definition DF_METRICS_EMPTY :: frame where
  "DF_METRICS_EMPTY = \<lparr>index = [0, 1, 2, 3, 4, 5], cols = [
     (''model'', [StrV ''Model1'', StrV ''Model2'', StrV ''Model1'',
                  StrV ''Model2'', StrV ''Model1'', StrV ''Model2'']),
     (''i_split'', [IntV 0, IntV 0, IntV 1, IntV 1, IntV 2, IntV 2])]\<rparr>"

definition DF_METRICS_NO_MODEL :: frame where
  "DF_METRICS_NO_MODEL = \<lparr>index = [0, 1, 2, 3, 4, 5], cols = [
     (''i_split'', [IntV 0, IntV 0, IntV 1, IntV 1, IntV 2, IntV 2]),
     (''prec@10'', [FltV (1 / 10), FltV (2 / 10), FltV (3 / 10),
                    FltV (4 / 10), FltV (5 / 10), FltV (6 / 10)]),
     (''recall'', [FltV (1 / 10), FltV (2 / 10), FltV (3 / 10),
                   FltV (4 / 10), FltV (5 / 10), FltV (6 / 10)])]\<rparr>"

text \<open>A rendering of floats for the concrete runs; none of them renders a float.\<close>

definition repr0 :: "rat \<Rightarrow> string" where
  "repr0 r = ''''"

text \<open>
  The metadata table of the example in the documentation of \<^verbatim>\<open>construct\<close>, and two
  spoilt copies of it: one repeats a model name, one misses a model name.
\<close>

definition metadata_df :: frame where
  "metadata_df = \<lparr>index = [0, 1], cols = [
     (''model'', [StrV ''Model1'', StrV ''Model2'']),
     (''factors'', [IntV 64, IntV 32]),
     (''regularization'', [FltV (5 / 100), FltV (5 / 100)]),
     (''alpha'', [FltV 2, FltV (1 / 2)])]\<rparr>"

definition metadata_df_repeated :: frame where
  "metadata_df_repeated = \<lparr>index = [0, 1], cols = [
     (''model'', [StrV ''Model1'', StrV ''Model1'']),
     (''factors'', [IntV 64, IntV 32]),
     (''regularization'', [FltV (5 / 100), FltV (5 / 100)]),
     (''alpha'', [FltV 2, FltV (1 / 2)])]\<rparr>"

definition metadata_df_missing :: frame where
  "metadata_df_missing = \<lparr>index = [0, 1], cols = [
     (''model'', [StrV ''Model1'', NaN]),
     (''factors'', [IntV 64, IntV 32]),
     (''regularization'', [FltV (5 / 100), FltV (5 / 100)]),
     (''alpha'', [FltV 2, FltV (1 / 2)])]\<rparr>"

text \<open>
  The metrics table of the test suite with the last fold of the second model renumbered:
  the two models no longer have the same folds.
\<close>

definition DF_METRICS_FOLDS_DIFFER :: frame where
  "DF_METRICS_FOLDS_DIFFER = \<lparr>index = [0, 1, 2, 3, 4, 5], cols = [
     (''model'', [StrV ''Model1'', StrV ''Model2'', StrV ''Model1'',
                  StrV ''Model2'', StrV ''Model1'', StrV ''Model2'']),
     (''i_split'', [IntV 0, IntV 0, IntV 1, IntV 1, IntV 2, IntV 3]),
     (''prec@10'', [FltV (1 / 10), FltV (2 / 10), FltV (3 / 10),
                    FltV (4 / 10), FltV (5 / 10), FltV (6 / 10)]),
     (''recall'', [FltV (1 / 10), FltV (2 / 10), FltV (3 / 10),
                   FltV (4 / 10), FltV (5 / 10), FltV (6 / 10)])]\<rparr>"

text \<open>
  A metrics table in which each of the two models has the fold 0 and a row whose fold
  identifier is missing.
\<close>

definition DF_METRICS_FOLD_MISSING :: frame where
  "DF_METRICS_FOLD_MISSING = \<lparr>index = [0, 1, 2, 3], cols = [
     (''model'', [StrV ''Model1'', StrV ''Model2'', StrV ''Model1'', StrV ''Model2'']),
     (''i_split'', [IntV 0, IntV 0, NaN, NaN]),
     (''prec@10'', [FltV (1 / 10), FltV (2 / 10), FltV (3 / 10), FltV (4 / 10)])]\<rparr>"

text \<open>
  Tables with spaces in the model names: a metrics table without folds whose two model
  names differ only by a space against an underscore, and a metrics table with folds
  together with a metadata table for the same two models.
\<close>

definition metrics_space_underscore :: frame where
  "metrics_space_underscore = \<lparr>index = [0, 1], cols = [
     (''model'', [StrV ''Model 1'', StrV ''Model_1'']),
     (''prec@10'', [FltV (1 / 10), FltV (2 / 10)])]\<rparr>"

definition metrics_spaced :: frame where
  "metrics_spaced = \<lparr>index = [0, 1, 2, 3], cols = [
     (''model'', [StrV ''Model 1'', StrV ''Model 2'', StrV ''Model 1'', StrV ''Model 2'']),
     (''i_split'', [IntV 0, IntV 0, IntV 1, IntV 1]),
     (''prec@10'', [FltV (1 / 10), FltV (2 / 10), FltV (3 / 10), FltV (4 / 10)])]\<rparr>"

definition metadata_spaced :: frame where
  "metadata_spaced = \<lparr>index = [0, 1], cols = [
     (''model'', [StrV ''Model 1'', StrV ''Model 2'']),
     (''factors'', [IntV 64, IntV 32])]\<rparr>"

text \<open>
  A metrics table that lists one model twice for the same fold, and one whose two rows
  differ in model and in fold but give the same text when model and fold are written one
  after the other.
\<close>

definition metrics_pair_repeated :: frame where
  "metrics_pair_repeated = \<lparr>index = [0, 1], cols = [
     (''model'', [StrV ''Model1'', StrV ''Model1'']),
     (''i_split'', [IntV 0, IntV 0]),
     (''prec@10'', [FltV (1 / 10), FltV (2 / 10)])]\<rparr>"

definition metrics_joined_text :: frame where
  "metrics_joined_text = \<lparr>index = [0, 1], cols = [
     (''model'', [StrV ''Model1'', StrV ''Model11'']),
     (''i_split'', [IntV 11, IntV 1]),
     (''prec@10'', [FltV (1 / 10), FltV (2 / 10)])]\<rparr>"

text \<open>
  The application that \<^verbatim>\<open>construct\<close> builds of the metrics table of the test suite,
  without metadata and without display.
\<close>

definition DF_METRICS_app :: app where
  "DF_METRICS_app = init DF_METRICS [''prec@10'', ''recall''] [] True False None"




text \<open>
  The application that \<^verbatim>\<open>construct\<close> builds of the metrics and metadata tables with
  spaces in the model names.
\<close>

definition metrics_spaced_app :: app where
  "metrics_spaced_app =
     projr (snd (construct repr0 (DataFrame metrics_spaced) (Some (DataFrame metadata_spaced))
                   True False None))"

section \<open>Facts about the table operations\<close>

lemma set_unique_by_subset: "set (unique_by f xs) \<subseteq> set xs"
  by (induction f xs rule: unique_by.induct) auto

lemma image_unique_by: "f ` set (unique_by f xs) = f ` set xs"
  by (induction f xs rule: unique_by.induct) auto

lemma distinct_unique_by: "distinct (map f (unique_by f xs))"
proof (induction f xs rule: unique_by.induct)
  case (1 f)
  then show ?case by simp
next
  case (2 f x xs)
  have "f x \<notin> f ` set (unique_by f (filter (\<lambda>y. f y \<noteq> f x) xs))"
    unfolding image_unique_by by auto
  with 2 show ?case by simp
qed

lemma length_unique_by_le: "length (unique_by f xs) \<le> length xs"
proof (induction f xs rule: unique_by.induct)
  case (1 f)
  then show ?case by simp
next
  case (2 f x xs)
  have "length (unique_by f (filter (\<lambda>y. f y \<noteq> f x) xs)) \<le> length xs"
    by (rule order_trans [OF "2.IH" length_filter_le])
  then show ?case by simp
qed

lemma unique_by_id: "distinct (map f xs) \<Longrightarrow> unique_by f xs = xs"
proof (induction xs)
  case Nil
  then show ?case by simp
next
  case (Cons x xs)
  from Cons.prems have "f x \<notin> f ` set xs" by simp
  then have "\<forall>y\<in>set xs. f y \<noteq> f x" by (metis imageI)
  then have "filter (\<lambda>y. f y \<noteq> f x) xs = xs"
    by (simp add: filter_id_conv)
  with Cons show ?case by simp
qed

lemma length_unique_by_eq: "length (unique_by f xs) = length xs \<longleftrightarrow> distinct (map f xs)"
proof
  assume "distinct (map f xs)"
  then show "length (unique_by f xs) = length xs" by (simp add: unique_by_id)
next
  assume l: "length (unique_by f xs) = length xs"
  have "card (f ` set (unique_by f xs)) = length (map f (unique_by f xs))"
    using distinct_card [OF distinct_unique_by, of f xs] by simp
  then have "card (f ` set xs) = length xs"
    using l by (simp add: image_unique_by)
  then have "card (set (map f xs)) = length (map f xs)" by simp
  then show "distinct (map f xs)" by (rule card_distinct)
qed

lemma filter_length_id: "length (filter P xs) = length xs \<Longrightarrow> filter P xs = xs"
proof -
  assume a: "length (filter P xs) = length xs"
  have "length (filter P xs) + length (filter (\<lambda>x. \<not> P x) xs) = length xs"
    by (rule sum_length_filter_compl)
  with a have "filter (\<lambda>x. \<not> P x) xs = []" by simp
  then have "\<forall>x\<in>set xs. P x" by (simp add: filter_empty_conv)
  then show ?thesis by (simp add: filter_id_conv)
qed

lemma nunique_le: "nunique vs \<le> length vs"
  unfolding nunique_def unique_def
  by (rule order_trans [OF length_unique_by_le length_filter_le])

lemma nunique_eq_length:
  "nunique vs = length vs \<longleftrightarrow> distinct (map py_key vs) \<and> NaN \<notin> set vs"
proof
  assume r: "distinct (map py_key vs) \<and> NaN \<notin> set vs"
  then have "filter (\<lambda>v. v \<noteq> NaN) vs = vs" by (simp add: filter_id_conv) blast
  with r show "nunique vs = length vs"
    by (simp add: nunique_def unique_def unique_by_id)
next
  assume l: "nunique vs = length vs"
  have a: "length (unique_by py_key (filter (\<lambda>v. v \<noteq> NaN) vs))
             \<le> length (filter (\<lambda>v. v \<noteq> NaN) vs)"
    by (rule length_unique_by_le)
  have b: "length (filter (\<lambda>v. v \<noteq> NaN) vs) \<le> length vs" by (rule length_filter_le)
  from l a b have c: "length (filter (\<lambda>v. v \<noteq> NaN) vs) = length vs"
    unfolding nunique_def unique_def by linarith
  then have e: "filter (\<lambda>v. v \<noteq> NaN) vs = vs" by (rule filter_length_id)
  from l e have "length (unique_by py_key vs) = length vs"
    unfolding nunique_def unique_def by simp
  then have "distinct (map py_key vs)" by (simp add: length_unique_by_eq)
  moreover from e have "NaN \<notin> set vs" by (simp add: filter_id_conv) blast
  ultimately show "distinct (map py_key vs) \<and> NaN \<notin> set vs" by simp
qed

lemma map_of_map_snd:
  "map_of (map (\<lambda>c. (fst c, f (snd c))) xs) k = map_option f (map_of xs k)"
  by (induction xs) auto

lemma getitem_getitem_mask:
  "getitem (getitem_mask t bs) c = map_sum id (pick bs) (getitem t c)"
  by (simp add: getitem_def getitem_mask_def map_of_map_snd split: option.splits)

lemma getitem_column: "c \<in> set (columns t) \<Longrightarrow> getitem t c = Inr (column t c)"
proof -
  assume "c \<in> set (columns t)"
  then have "c \<in> fst ` set (cols t)" by (simp add: columns_def)
  then obtain vs where "map_of (cols t) c = Some vs"
    by (metis domD dom_map_of_conv_image_fst)
  then show ?thesis by (simp add: getitem_def column_def)
qed

lemma getitem_absent: "c \<notin> set (columns t) \<Longrightarrow> getitem t c = Inl KeyError"
proof -
  assume "c \<notin> set (columns t)"
  then have "c \<notin> fst ` set (cols t)" by (simp add: columns_def)
  then have "map_of (cols t) c = None" by (simp add: map_of_eq_None_iff)
  then show ?thesis by (simp add: getitem_def)
qed

lemma column_absent: "c \<notin> set (columns t) \<Longrightarrow> column t c = []"
proof -
  assume "c \<notin> set (columns t)"
  then have "c \<notin> fst ` set (cols t)" by (simp add: columns_def)
  then have "map_of (cols t) c = None" by (simp add: map_of_eq_None_iff)
  then show ?thesis by (simp add: column_def)
qed

lemma pick_map:
  "pick (map P ms) ss = map snd (filter (\<lambda>p. P (fst p)) (zip ms ss))"
proof (induction ms arbitrary: ss)
  case Nil
  then show ?case by (simp add: pick_def)
next
  case (Cons m ms)
  then show ?case by (cases ss) (auto simp: pick_def)
qed

lemma fold_ids_of_pick:
  "fold_ids_of t m =
     py_key ` set (pick (map (\<lambda>v. py_eq v m) (column t Columns_Model)) (column t Columns_Split))"
  by (simp add: fold_ids_of_def pick_map image_image)

lemma set_key_unique: "set (map py_key (unique vs)) = py_key ` set vs"
  by (simp add: unique_def image_unique_by)

lemma length_unique_by_card: "length (unique_by f xs) = card (f ` set xs)"
proof -
  have "card (f ` set (unique_by f xs)) = length (map f (unique_by f xs))"
    using distinct_card [OF distinct_unique_by, of f xs] by simp
  then show ?thesis by (simp add: image_unique_by)
qed

lemma py_key_NaN: "py_key v = NaN \<longleftrightarrow> v = NaN"
  by (cases v) (auto simp: py_key_def)

lemma nunique_card: "nunique vs = card (py_key ` set vs - {NaN})"
proof -
  have "py_key ` set (filter (\<lambda>v. v \<noteq> NaN) vs) = py_key ` set vs - {NaN}"
    by (auto simp: py_key_NaN)
  then show ?thesis
    by (simp add: nunique_def unique_def length_unique_by_card)
qed

lemma check_groups_iff:
  assumes "\<forall>g\<in>set gs. getitem (snd g) ''i_split'' = Inr (F g)"
  shows "check_groups rc rn gs =
     (if \<exists>g\<in>set gs. nunique (F g) \<noteq> rc \<or> \<not> py_set_eq (set (map py_key (unique (F g)))) rn
      then Inl ValueError else Inr ())"
  using assms by (induction gs) auto

lemma set_group_keys:
  "set (group_keys b vs) = set (unique (filter (\<lambda>v. v \<noteq> NaN) vs))"
  by (simp add: group_keys_def Let_def)

lemma group_keys_not_NaN: "k \<in> set (group_keys b vs) \<Longrightarrow> k \<noteq> NaN \<and> k \<in> set vs"
  using set_unique_by_subset [of py_key "filter (\<lambda>v. v \<noteq> NaN) vs"]
  by (auto simp: set_group_keys unique_def)

lemma group_keys_cover:
  assumes "m \<in> set vs" "m \<noteq> NaN"
  shows "\<exists>k\<in>set (group_keys b vs). py_key k = py_key m"
proof -
  from assms have "py_key m \<in> py_key ` set (filter (\<lambda>v. v \<noteq> NaN) vs)" by simp
  then have "py_key m \<in> py_key ` set (unique_by py_key (filter (\<lambda>v. v \<noteq> NaN) vs))"
    by (simp only: image_unique_by)
  then show ?thesis by (auto simp: set_group_keys unique_def)
qed

lemma fold_ids_of_key:
  assumes "py_key k = py_key m" "k \<noteq> NaN" "m \<noteq> NaN"
  shows "fold_ids_of t k = fold_ids_of t m"
  using assms by (simp add: fold_ids_of_def py_eq_def)

lemma getitem_setitem_same: "getitem (setitem t c vs) c = Inr vs"
  by (simp add: getitem_def setitem_def update_conv')

lemma getitem_setitem_other: "c' \<noteq> c \<Longrightarrow> getitem (setitem t c vs) c' = getitem t c'"
  by (simp add: getitem_def setitem_def update_conv')


lemma Columns_distinct: "Columns_Split \<noteq> Columns_Model"
  by (simp add: Columns_Split_def Columns_Model_def)

lemma model_id_StrV: "\<exists>s. model_id fr v = StrV s \<and> CHR '' '' \<notin> set s"
  by (cases v) (auto simp: model_id_def astype_str_def str_replace_def)

lemma py_key_StrV: "py_key (StrV s) = StrV s"
  by (simp add: py_key_def)

lemma py_key_model_id: "py_key (model_id fr v) = model_id fr v"
  using model_id_StrV [of fr v] by (auto simp: py_key_StrV)

lemma nunique_strings:
  assumes "\<forall>v\<in>set vs. is_str v"
  shows "nunique vs = length vs \<longleftrightarrow> distinct vs"
proof -
  have k: "map py_key vs = vs"
  proof (rule map_idI)
    fix v assume "v \<in> set vs"
    with assms have "is_str v" by simp
    then show "py_key v = v" by (cases v) (simp_all add: is_str_def py_key_def)
  qed
  have "NaN \<notin> set vs"
  proof
    assume "NaN \<in> set vs"
    with assms have "is_str NaN" by blast
    then show False by (simp add: is_str_def)
  qed
  then show ?thesis by (simp add: nunique_eq_length k)
qed

lemma is_str_model_id: "is_str (model_id fr v)"
  using model_id_StrV [of fr v] by (auto simp: is_str_def)

lemma is_str_astype_str: "is_str (astype_str fr v)"
  by (cases v) (simp_all add: astype_str_def is_str_def)

lemma is_str_str_add: "is_str a \<Longrightarrow> is_str b \<Longrightarrow> is_str (str_add a b)"
  by (cases a; cases b) (simp_all add: is_str_def str_add_def)

lemma validate_names_nosplit:
  assumes "Columns_Model \<in> set (columns t)" "Columns_Split \<notin> set (columns t)"
  shows "validate_models_metrics_names fr t =
     (setitem t Columns_Model (map (model_id fr) (column t Columns_Model)),
      if distinct (map (model_id fr) (column t Columns_Model)) then Inr () else Inl ValueError)"
proof -
  have n: "(str_replace CHR '' '' CHR ''_'' \<circ> astype_str fr) = model_id fr"
    by (rule ext) (simp add: model_id_def)
  have s: "\<forall>v\<in>set (map (model_id fr) (column t Columns_Model)). is_str v"
    by (simp add: is_str_model_id)
  show ?thesis
    using assms nunique_strings [OF s]
    by (simp add: validate_models_metrics_names_def getitem_column n getitem_setitem_same Let_def)
qed

lemma validate_names_split:
  assumes "Columns_Model \<in> set (columns t)" "Columns_Split \<in> set (columns t)"
  shows "validate_models_metrics_names fr t =
     (setitem t Columns_Model (map (model_id fr) (column t Columns_Model)),
      if distinct (map2 str_add (map (model_id fr) (column t Columns_Model))
                     (map (astype_str fr) (column t Columns_Split)))
      then Inr () else Inl ValueError)"
proof -
  have n: "(str_replace CHR '' '' CHR ''_'' \<circ> astype_str fr) = model_id fr"
    by (rule ext) (simp add: model_id_def)
  have s: "\<forall>v\<in>set (map2 str_add (map (model_id fr) (column t Columns_Model))
                     (map (astype_str fr) (column t Columns_Split))). is_str v"
    by (auto simp: is_str_model_id is_str_astype_str is_str_str_add dest!: set_zip_leftD set_zip_rightD
        elim!: in_set_zipE)
  show ?thesis
    using assms nunique_strings [OF s] Columns_distinct
    by (simp add: validate_models_metrics_names_def getitem_column n getitem_setitem_same
        getitem_setitem_other Let_def)
qed

lemma py_key_idem: "py_key (py_key v) = py_key v"
  by (cases v) (auto simp: py_key_def)

lemma py_eq_key: "py_eq v (py_key k) = py_eq v k"
  by (simp add: py_eq_def py_key_idem py_key_NaN)

lemma chart_data_fold_key: "chart_data_fold d (py_key k) = chart_data_fold d k"
  by (simp add: chart_data_fold_def py_eq_key split: sum.splits)

lemma data_make_chart_data_fold: "data (snd (make_chart_data_fold a k)) = data a"
  by (simp add: make_chart_data_fold_def split: option.splits sum.splits)

lemma data_make_chart_data_avg: "data (snd (make_chart_data_avg a)) = data a"
  by (simp add: make_chart_data_avg_def split: option.splits sum.splits)

lemma data_handle: "data (handle a r) = data a"
  by (cases r)
    (simp_all add: data_make_chart_data_fold data_make_chart_data_avg create_chart_data_def)

lemma data_run: "data (run a rs) = data a"
  unfolding run_def by (induction rs arbitrary: a) (simp_all add: data_handle)

lemma cache_make_chart_data_fold:
  assumes "\<forall>e\<in>set (fold_cache a). chart_data_fold (data a) (fst e) = Inr (snd e)"
  shows "\<forall>e\<in>set (fold_cache (snd (make_chart_data_fold a k))).
           chart_data_fold (data a) (fst e) = Inr (snd e)"
proof (cases "map_of (fold_cache a) (py_key k)")
  case None
  show ?thesis
  proof (cases "chart_data_fold (data a) k")
    case (Inl e)
    with None assms show ?thesis by (simp add: make_chart_data_fold_def)
  next
    case (Inr v)
    have "set (take lru_maxsize ((py_key k, v) # fold_cache a))
            \<subseteq> insert (py_key k, v) (set (fold_cache a))"
      using set_take_subset [of lru_maxsize "(py_key k, v) # fold_cache a"] by simp
    moreover have "chart_data_fold (data a) (py_key k) = Inr v"
      using Inr by (simp add: chart_data_fold_key)
    ultimately show ?thesis
      using None Inr assms by (auto simp: make_chart_data_fold_def)
  qed
next
  case (Some v)
  then have "(py_key k, v) \<in> set (fold_cache a)" by (rule map_of_SomeD)
  with Some assms show ?thesis by (auto simp: make_chart_data_fold_def)
qed

lemma cache_make_chart_data_avg:
  "fold_cache (snd (make_chart_data_avg a)) = fold_cache a"
  by (simp add: make_chart_data_avg_def split: option.splits sum.splits)

lemma cache_handle:
  assumes "\<forall>e\<in>set (fold_cache a). chart_data_fold (data a) (fst e) = Inr (snd e)"
  shows "\<forall>e\<in>set (fold_cache (handle a r)). chart_data_fold (data a) (fst e) = Inr (snd e)"
proof (cases r)
  case (FoldView k)
  then show ?thesis using cache_make_chart_data_fold [OF assms] by simp
next
  case AverageView
  then show ?thesis using assms by (simp add: cache_make_chart_data_avg)
next
  case (ChartData use_avg fold_i)
  then show ?thesis
    using assms cache_make_chart_data_fold [OF assms]
    by (simp add: create_chart_data_def cache_make_chart_data_avg)
qed

lemma cache_run:
  assumes "\<forall>e\<in>set (fold_cache a). chart_data_fold (data a) (fst e) = Inr (snd e)"
  shows "\<forall>e\<in>set (fold_cache (run a rs)). chart_data_fold (data a) (fst e) = Inr (snd e)"
  using assms
proof (induction rs arbitrary: a)
  case Nil
  then show ?case by (simp add: run_def)
next
  case (Cons r rs)
  have "\<forall>e\<in>set (fold_cache (handle a r)).
          chart_data_fold (data (handle a r)) (fst e) = Inr (snd e)"
    using cache_handle [OF Cons.prems] by (simp add: data_handle)
  from Cons.IH [OF this] show ?case by (simp add: run_def data_handle)
qed

lemma fst_make_chart_data_fold:
  assumes "\<forall>e\<in>set (fold_cache a). chart_data_fold (data a) (fst e) = Inr (snd e)"
  shows "fst (make_chart_data_fold a k) = chart_data_fold (data a) k"
proof (cases "map_of (fold_cache a) (py_key k)")
  case None
  then show ?thesis by (simp add: make_chart_data_fold_def split: sum.splits)
next
  case (Some v)
  then have "(py_key k, v) \<in> set (fold_cache a)" by (rule map_of_SomeD)
  with assms have "chart_data_fold (data a) (py_key k) = Inr v" by fastforce
  with Some show ?thesis by (simp add: make_chart_data_fold_def chart_data_fold_key)
qed

lemma construct_app:
  assumes "snd (construct fr mm md sl ad kw) = Inr a"
  shows "fold_cache a = [] \<and> avg_cache a = None"
  using assms
  by (auto simp: construct_def init_def Let_def
      split: sum.splits pyobj.splits prod.splits option.splits)

lemma length_range_index: "length (range_index n) = n"
  by (simp add: range_index_def)

section \<open>Facts about grouping and selection\<close>







section \<open>Facts about construction\<close>

lemma construct_success:
  assumes "snd (construct fr (DataFrame t) md sl ad kw) = Inr a"
  shows "\<exists>m merged ms.
      validate_models_metrics_base (DataFrame t) = Inr () \<and>
      validate_models_metrics_split t = Inr () \<and>
      snd (validate_models_metrics_names fr t) = Inr () \<and>
      (case md of None \<Rightarrow> default_metadata (fst (validate_models_metrics_names fr t)) = Inr m
               | Some x \<Rightarrow> x = DataFrame m) \<and>
      validate_models_metadata (DataFrame m) = Inr () \<and>
      merge (fst (validate_models_metrics_names fr t)) m Columns_Model = Inr merged \<and>
      getitem merged Columns_Model = Inr ms \<and>
      a = init (setitem merged Columns_Model (map (str_replace CHR '' '' CHR ''_'') ms))
            (filter (\<lambda>col. col \<notin> {Columns_Split, Columns_Model})
               (columns (fst (validate_models_metrics_names fr t))))
            (filter (\<lambda>col. col \<noteq> Columns_Model) (columns m)) sl ad kw"
proof (cases md)
  case None
  with assms show ?thesis
    unfolding construct_def Let_def
    by (auto split: sum.splits pyobj.splits prod.splits simp: map_sum_def)
next
  case (Some x)
  with assms show ?thesis
    unfolding construct_def Let_def
    by (auto split: sum.splits pyobj.splits prod.splits)
qed

lemma map_of_renamed:
  assumes "g c = c" "\<forall>n. g n = c \<longrightarrow> n = c"
  shows "map_of (map (\<lambda>lc. (g (fst lc), h (snd lc))) xs) c = map_option h (map_of xs c)"
  using assms by (induction xs) auto

lemma fst_join_positions: "fst ` set (join_positions lk rk) = {0..<length lk}"
proof -
  define f where "f = (\<lambda>i.
        let js = filter (\<lambda>j. py_key (rk ! j) = py_key (lk ! i)) [0..<length rk]
        in if js = [] then [(i, None)] else map (\<lambda>j. (i, Some j)) js)"
  have one: "fst ` set (if js = [] then [(i, None)] else map (\<lambda>j. (i, Some j)) js) = {i}"
    for js :: "nat list" and i :: nat
    by (cases js) (auto simp: image_iff)
  have fi: "fst ` set (f i) = {i}" for i
    unfolding f_def Let_def by (rule one)
  have c: "fst ` set (concat (map f xs)) = set xs" for xs
    by (induction xs) (simp_all add: image_Un fi)
  have "fst ` set (concat (map f [0..<length lk])) = {0..<length lk}"
    using c [of "[0..<length lk]"] by simp
  then show ?thesis by (simp only: join_positions_def f_def)
qed

lemma set_join_left: "set (map (\<lambda>p. lk ! fst p) (join_positions lk rk)) = set lk"
proof -
  have "set (map (\<lambda>p. lk ! fst p) (join_positions lk rk)) =
          (\<lambda>i. lk ! i) ` fst ` set (join_positions lk rk)"
    by (simp add: image_image)
  also have "\<dots> = (\<lambda>i. lk ! i) ` {0..<length lk}"
    by (simp only: fst_join_positions)
  also have "\<dots> = set lk"
    by (auto simp: set_conv_nth)
  finally show ?thesis .
qed

lemma merge_key_column:
  assumes m: "merge l r c = Inr merged"
    and c: "\<forall>n. n @ ''_x'' \<noteq> c"
  shows "\<exists>rk. getitem r c = Inr rk \<and>
           getitem merged c = Inr (map (\<lambda>p. column l c ! fst p) (join_positions (column l c) rk))"
proof -
  from m obtain lk where lk: "getitem l c = Inr lk"
    by (cases "getitem l c") (simp_all add: merge_def)
  from m lk obtain rk where rk: "getitem r c = Inr rk"
    by (cases "getitem r c") (simp_all add: merge_def)
  from lk have ml: "map_of (cols l) c = Some lk"
    by (simp add: getitem_def split: option.splits)
  then have col: "column l c = lk" by (simp add: column_def)
  define ps where "ps = join_positions lk rk"
  define overlap where "overlap = filter (\<lambda>n. n \<noteq> c \<and> n \<in> set (columns r)) (columns l)"
  define g where "g = (\<lambda>n. if n \<in> set overlap then n @ ''_x'' else n)"
  define lcols where "lcols = map (\<lambda>lc. (g (fst lc), map (\<lambda>p. snd lc ! fst p) ps)) (cols l)"
  define rcols where "rcols = map (\<lambda>rc. (if fst rc \<in> set overlap then fst rc @ ''_y'' else fst rc,
        map (\<lambda>p. case snd p of None \<Rightarrow> NaN | Some j \<Rightarrow> snd rc ! j) ps))
        (filter (\<lambda>rc. fst rc \<noteq> c) (cols r))"
  have cm: "cols merged = lcols @ rcols"
    using m lk rk
    by (auto simp: merge_def Let_def lcols_def rcols_def g_def overlap_def ps_def
        split: if_splits)
  have g1: "g c = c" by (simp add: g_def overlap_def)
  have g2: "\<forall>n. g n = c \<longrightarrow> n = c" using c by (simp add: g_def)
  have "map_of lcols c = Some (map (\<lambda>p. lk ! fst p) ps)"
    unfolding lcols_def using map_of_renamed [OF g1 g2, of "\<lambda>vs. map (\<lambda>p. vs ! fst p) ps" "cols l"] ml
    by simp
  then have "getitem merged c = Inr (map (\<lambda>p. lk ! fst p) ps)"
    by (simp add: getitem_def cm)
  with rk col show ?thesis by (simp add: ps_def)
qed

lemma Columns_Model_suffix: "\<forall>n. n @ ''_x'' \<noteq> Columns_Model"
proof
  fix n :: string
  show "n @ ''_x'' \<noteq> Columns_Model"
  proof
    assume "n @ ''_x'' = Columns_Model"
    then have "last (n @ ''_x'') = last Columns_Model" by simp
    then show False by (simp add: Columns_Model_def)
  qed
qed

lemma str_replace_model_id:
  "str_replace CHR '' '' CHR ''_'' (model_id fr v) = model_id fr v"
proof -
  obtain s where s: "model_id fr v = StrV s" "CHR '' '' \<notin> set s"
    using model_id_StrV by blast
  then have "map (\<lambda>c. if c = CHR '' '' then CHR ''_'' else c) s = s"
    by (intro map_idI) auto
  with s show ?thesis by (simp add: str_replace_def)
qed

lemma column_setitem_same: "column (setitem t c vs) c = vs"
  by (simp add: column_def setitem_def update_conv')

lemma construct_model_column:
  assumes "snd (construct fr (DataFrame t) md sl ad kw) = Inr a"
  shows "set (column (data a) Columns_Model) = model_id fr ` set (column t Columns_Model)"
proof -
  from construct_success [OF assms] obtain m merged ms where
    base: "validate_models_metrics_base (DataFrame t) = Inr ()" and
    mrg: "merge (fst (validate_models_metrics_names fr t)) m Columns_Model = Inr merged" and
    ms: "getitem merged Columns_Model = Inr ms" and
    a: "a = init (setitem merged Columns_Model (map (str_replace CHR '' '' CHR ''_'') ms))
            (filter (\<lambda>col. col \<notin> {Columns_Split, Columns_Model})
               (columns (fst (validate_models_metrics_names fr t))))
            (filter (\<lambda>col. col \<noteq> Columns_Model) (columns m)) sl ad kw"
    by blast
  from base have mc: "Columns_Model \<in> set (columns t)"
    by (simp add: validate_models_metrics_base_def split: if_splits)
  define ids where "ids = map (model_id fr) (column t Columns_Model)"
  have t': "fst (validate_models_metrics_names fr t) = setitem t Columns_Model ids"
    using validate_names_split [OF mc] validate_names_nosplit [OF mc]
    by (cases "Columns_Split \<in> set (columns t)") (simp_all add: ids_def)
  have lcol: "column (setitem t Columns_Model ids) Columns_Model = ids"
    by (rule column_setitem_same)
  from merge_key_column [OF mrg Columns_Model_suffix] ms obtain rk where
    "ms = map (\<lambda>p. ids ! fst p) (join_positions ids rk)"
    by (auto simp: t' lcol)
  then have sms: "set ms = set ids" by (simp only: set_join_left)
  have "map (str_replace CHR '' '' CHR ''_'') ms = ms"
  proof (rule map_idI)
    fix v assume "v \<in> set ms"
    with sms obtain x where "v = model_id fr x" by (auto simp: ids_def)
    then show "str_replace CHR '' '' CHR ''_'' v = v" by (simp add: str_replace_model_id)
  qed
  then have "column (data a) Columns_Model = ms"
    by (simp add: a init_def column_setitem_same)
  with sms show ?thesis by (simp add: ids_def)
qed

lemma set_unique_strings:
  assumes "\<forall>v\<in>set vs. is_str v"
  shows "set (unique vs) = set vs \<and> distinct (unique vs)"
proof -
  have k: "py_key v = v" if "v \<in> set vs" for v
    using assms that by (cases v) (auto simp: is_str_def py_key_def)
  have sub: "set (unique vs) \<subseteq> set vs"
    unfolding unique_def by (rule set_unique_by_subset)
  have "py_key ` set (unique vs) = py_key ` set vs"
    unfolding unique_def by (rule image_unique_by)
  moreover have "py_key ` set (unique vs) = set (unique vs)"
    using sub k by force
  moreover have "py_key ` set vs = set vs"
    using k by force
  ultimately have "set (unique vs) = set vs" by simp
  moreover have "distinct (map py_key (unique vs))"
    unfolding unique_def by (rule distinct_unique_by)
  then have "distinct (unique vs)" by (simp add: distinct_map)
  ultimately show ?thesis by simp
qed

lemma construct_model_getitem:
  assumes "snd (construct fr (DataFrame t) md sl ad kw) = Inr a"
  shows "getitem (data a) Columns_Model = Inr (column (data a) Columns_Model)"
proof -
  from construct_success [OF assms] obtain d where "data a = setitem d Columns_Model
      (column (data a) Columns_Model)"
    by (auto simp: init_def column_setitem_same)
  then show ?thesis by (metis getitem_setitem_same)
qed

section \<open>Facts about joins and the average view\<close>







lemma merge_structure:
  assumes m: "merge l r c = Inr merged"
  shows "\<exists>lk rk. getitem l c = Inr lk \<and> getitem r c = Inr rk \<and>
     index merged = range_index (length (join_positions lk rk)) \<and>
     cols merged =
       map (\<lambda>lc. (if fst lc \<noteq> c \<and> fst lc \<in> set (columns r) \<and> fst lc \<in> set (columns l)
                    then fst lc @ ''_x'' else fst lc,
                   map (\<lambda>p. snd lc ! fst p) (join_positions lk rk))) (cols l) @
       map (\<lambda>rc. (if fst rc \<noteq> c \<and> fst rc \<in> set (columns r) \<and> fst rc \<in> set (columns l)
                    then fst rc @ ''_y'' else fst rc,
                   map (\<lambda>p. case snd p of None \<Rightarrow> NaN | Some j \<Rightarrow> snd rc ! j)
                     (join_positions lk rk)))
         (filter (\<lambda>rc. fst rc \<noteq> c) (cols r))"
proof -
  from m obtain lk where lk: "getitem l c = Inr lk"
    by (cases "getitem l c") (simp_all add: merge_def)
  from m lk obtain rk where rk: "getitem r c = Inr rk"
    by (cases "getitem r c") (simp_all add: merge_def)
  have ov: "n \<in> set (filter (\<lambda>n. n \<noteq> c \<and> n \<in> set (columns r)) (columns l)) \<longleftrightarrow>
      n \<noteq> c \<and> n \<in> set (columns r) \<and> n \<in> set (columns l)" for n
    by auto
  from m lk rk show ?thesis
    unfolding merge_def Let_def ov
    by (auto split: if_splits)
qed



lemma map_of_column: "c \<in> set (columns t) \<Longrightarrow> map_of (cols t) c = Some (column t c)"
proof -
  assume "c \<in> set (columns t)"
  then have "c \<in> fst ` set (cols t)" by (simp add: columns_def)
  then obtain vs where "map_of (cols t) c = Some vs"
    by (metis domD dom_map_of_conv_image_fst)
  then show ?thesis by (simp add: column_def)
qed







lemma merge_lengths:
  assumes "merge l r c = Inr merged"
  shows "\<forall>col\<in>set (cols merged). length (snd col) = length (index merged)"
  using merge_structure [OF assms] by (auto simp: length_range_index)

lemma setitem_lengths:
  assumes "\<forall>col\<in>set (cols t). length (snd col) = n" "length vs = n"
  shows "\<forall>col\<in>set (cols (setitem t c vs)). length (snd col) = n"
proof -
  have "\<forall>col\<in>set (AList.update c vs al). length (snd col) = n"
    if "\<forall>col\<in>set al. length (snd col) = n" for al :: "(string \<times> cell list) list"
    using that assms(2) by (induction al) auto
  with assms(1) show ?thesis by (simp add: setitem_def)
qed

lemma constructed_data_lengths:
  assumes c: "snd (construct fr mm md sl ad kw) = Inr a"
    and n: "n \<in> set (columns (data a))"
  shows "length (column (data a) n) = length (index (data a))"
proof -
  from c obtain t where mm: "mm = DataFrame t"
    by (cases mm) (simp_all add: construct_def validate_models_metrics_base_def)
  from construct_success [OF c [unfolded mm]] obtain m merged ms where
    mrg: "merge (fst (validate_models_metrics_names fr t)) m Columns_Model = Inr merged" and
    ms: "getitem merged Columns_Model = Inr ms" and
    a: "a = init (setitem merged Columns_Model (map (str_replace CHR '' '' CHR ''_'') ms))
            (filter (\<lambda>col. col \<notin> {Columns_Split, Columns_Model})
               (columns (fst (validate_models_metrics_names fr t))))
            (filter (\<lambda>col. col \<noteq> Columns_Model) (columns m)) sl ad kw"
    by blast
  note len = merge_lengths [OF mrg]
  from ms have "(Columns_Model, ms) \<in> set (cols merged)"
    by (auto simp: getitem_def split: option.splits dest: map_of_SomeD)
  with len have "length ms = length (index merged)" by auto
  then have "length (map (str_replace CHR '' '' CHR ''_'') ms) = length (index merged)"
    by simp
  from setitem_lengths [OF len this]
  have "\<forall>col\<in>set (cols (data a)). length (snd col) = length (index merged)"
    by (simp add: a init_def)
  moreover have "index (data a) = index merged"
    by (simp add: a init_def setitem_def)
  moreover from map_of_column [OF n] have "(n, column (data a) n) \<in> set (cols (data a))"
    by (rule map_of_SomeD)
  ultimately show ?thesis by auto
qed

lemma length_pick_map:
  assumes "length ss = length xs"
  shows "length (pick (map P ss) xs) = length (filter P ss)"
proof -
  have "length (filter (\<lambda>p. P (fst p)) (zip ss xs)) = length (filter P ss)"
    using assms by (induction ss xs rule: list_induct2) simp_all
  then show ?thesis by (simp add: pick_map)
qed

















section \<open>Schema errors of construction\<close>

text \<open>
  Claim C6. Construction on a metrics table raises a key error when the model column is
  absent, and raises a key error when no metric column is left once the model and fold
  columns are set aside. In both cases the caller's table is as it was.
\<close>

theorem construct_schema_errors:
  "(Columns_Model \<notin> set (columns t) \<longrightarrow>
      construct float_repr (DataFrame t) md sl ad kw = (DataFrame t, Inl KeyError)) \<and>
   (filter (\<lambda>c. c \<notin> {Columns_Model, Columns_Split}) (columns t) = [] \<longrightarrow>
      construct float_repr (DataFrame t) md sl ad kw = (DataFrame t, Inl KeyError))"
  by (simp add: construct_def validate_models_metrics_base_def)

text \<open>The two failing tables of the test suite.\<close>

theorem construct_schema_errors_witness:
  "Columns_Model \<notin> set (columns DF_METRICS_NO_MODEL) \<and>
   construct repr0 (DataFrame DF_METRICS_NO_MODEL) None True False None =
     (DataFrame DF_METRICS_NO_MODEL, Inl KeyError) \<and>
   filter (\<lambda>c. c \<notin> {Columns_Model, Columns_Split}) (columns DF_METRICS_EMPTY) = [] \<and>
   construct repr0 (DataFrame DF_METRICS_EMPTY) None True False None =
     (DataFrame DF_METRICS_EMPTY, Inl KeyError)"
proof -
  have a: "Columns_Model \<notin> set (columns DF_METRICS_NO_MODEL)"
    by (simp add: columns_def DF_METRICS_NO_MODEL_def Columns_Model_def)
  have b: "filter (\<lambda>c. c \<notin> {Columns_Model, Columns_Split}) (columns DF_METRICS_EMPTY) = []"
    by (simp add: columns_def DF_METRICS_EMPTY_def Columns_Model_def Columns_Split_def)
  from a b show ?thesis
    using construct_schema_errors [of DF_METRICS_NO_MODEL repr0 None True False None]
      construct_schema_errors [of DF_METRICS_EMPTY repr0 None True False None]
    by simp
qed

section \<open>Validation of the metadata table\<close>

text \<open>
  Claim C7. Validation of the metadata fails with a value error when the input is no
  table, with a key error when the table has no model column, and, on a well-formed table
  with model column \<open>ms\<close>, with a value error when two model values are the same key or
  when a model value is missing; in every other case it succeeds.
\<close>

theorem validate_models_metadata_cases:
  "validate_models_metadata NotDataFrame = Inl ValueError \<and>
   (Columns_Model \<notin> set (columns t) \<longrightarrow> validate_models_metadata (DataFrame t) = Inl KeyError) \<and>
   (wf_frame t \<and> getitem t Columns_Model = Inr ms \<longrightarrow>
      (\<not> distinct (map py_key ms) \<longrightarrow> validate_models_metadata (DataFrame t) = Inl ValueError) \<and>
      (NaN \<in> set ms \<longrightarrow> validate_models_metadata (DataFrame t) = Inl ValueError) \<and>
      (distinct (map py_key ms) \<and> NaN \<notin> set ms \<longrightarrow>
         validate_models_metadata (DataFrame t) = Inr ()))"
proof -
  have "validate_models_metadata (DataFrame t) =
          (if distinct (map py_key ms) \<and> NaN \<notin> set ms then Inr () else Inl ValueError)"
    if wf: "wf_frame t" and g: "getitem t Columns_Model = Inr ms"
  proof -
    from g have m: "map_of (cols t) Columns_Model = Some ms"
      by (auto simp: getitem_def split: option.splits)
    then have "(Columns_Model, ms) \<in> set (cols t)" by (rule map_of_SomeD)
    with wf have len: "length ms = length (index t)"
      by (auto simp: wf_frame_def list_all_iff)
    from m have "Columns_Model \<in> set (columns t)"
      by (metis columns_def domI dom_map_of_conv_image_fst set_map)
    with g len show ?thesis
      using nunique_eq_length [of ms]
      by (auto simp: validate_models_metadata_def)
  qed
  then show ?thesis
    by (auto simp: validate_models_metadata_def)
qed

text \<open>
  A table without model column, the documented metadata table, and its two spoilt copies.
\<close>

theorem validate_models_metadata_cases_witness:
  "Columns_Model \<notin> set (columns DF_METRICS_NO_MODEL) \<and>
   validate_models_metadata (DataFrame DF_METRICS_NO_MODEL) = Inl KeyError \<and>
   wf_frame metadata_df_repeated \<and>
   getitem metadata_df_repeated Columns_Model = Inr [StrV ''Model1'', StrV ''Model1''] \<and>
   \<not> distinct (map py_key [StrV ''Model1'', StrV ''Model1'']) \<and>
   validate_models_metadata (DataFrame metadata_df_repeated) = Inl ValueError \<and>
   wf_frame metadata_df_missing \<and>
   getitem metadata_df_missing Columns_Model = Inr [StrV ''Model1'', NaN] \<and>
   NaN \<in> set [StrV ''Model1'', NaN] \<and>
   validate_models_metadata (DataFrame metadata_df_missing) = Inl ValueError \<and>
   wf_frame metadata_df \<and>
   getitem metadata_df Columns_Model = Inr [StrV ''Model1'', StrV ''Model2''] \<and>
   distinct (map py_key [StrV ''Model1'', StrV ''Model2'']) \<and>
   NaN \<notin> set [StrV ''Model1'', StrV ''Model2''] \<and>
   validate_models_metadata (DataFrame metadata_df) = Inr ()"
proof -
  have a: "Columns_Model \<notin> set (columns DF_METRICS_NO_MODEL)"
    by (simp add: columns_def DF_METRICS_NO_MODEL_def Columns_Model_def)
  have b: "wf_frame metadata_df_repeated \<and>
      getitem metadata_df_repeated Columns_Model = Inr [StrV ''Model1'', StrV ''Model1'']"
    by (simp add: wf_frame_def metadata_df_repeated_def getitem_def columns_def Columns_Model_def)
  have c: "wf_frame metadata_df_missing \<and>
      getitem metadata_df_missing Columns_Model = Inr [StrV ''Model1'', NaN]"
    by (simp add: wf_frame_def metadata_df_missing_def getitem_def columns_def Columns_Model_def)
  have d: "wf_frame metadata_df \<and>
      getitem metadata_df Columns_Model = Inr [StrV ''Model1'', StrV ''Model2'']"
    by (simp add: wf_frame_def metadata_df_def getitem_def columns_def Columns_Model_def)
  have e: "\<not> distinct (map py_key [StrV ''Model1'', StrV ''Model1''])"
    by (simp add: py_key_def)
  have f: "distinct (map py_key [StrV ''Model1'', StrV ''Model2''])"
    by (simp add: py_key_def)
  from a b c d e f show ?thesis
    using validate_models_metadata_cases [of DF_METRICS_NO_MODEL]
      validate_models_metadata_cases [of metadata_df_repeated "[StrV ''Model1'', StrV ''Model1'']"]
      validate_models_metadata_cases [of metadata_df_missing "[StrV ''Model1'', NaN]"]
      validate_models_metadata_cases [of metadata_df "[StrV ''Model1'', StrV ''Model2'']"]
    by simp
qed

section \<open>Choice of the view\<close>

text \<open>
  Claim C9. The data for the chart is the average view whenever the check box for the
  average is set, and whenever no fold is selected; with the check box off and a fold
  selected it is the fold view of that fold.
\<close>

theorem create_chart_data_selection:
  "create_chart_data a True fold_i = make_chart_data_avg a \<and>
   create_chart_data a use_avg None = make_chart_data_avg a \<and>
   create_chart_data a False (Some fold_number) = make_chart_data_fold a fold_number"
  by (simp add: create_chart_data_def)

section \<open>Consistency of the folds\<close>

text \<open>
  Claim C2. On a metrics table with a fold column in which no fold identifier is missing,
  the fold validator raises a value error exactly when some model's set of fold
  identifiers differs from that of the reference model, the first model in the order of
  the groups; the number of distinct fold identifiers is a function of that set, so the
  check of the count adds nothing. When the validator passes, any two models of the table
  have the same set of fold identifiers.
\<close>

theorem validate_models_metrics_split_iff:
  assumes split: "Columns_Split \<in> set (columns t)"
    and folds_present: "NaN \<notin> set (column t Columns_Split)"
  shows "(validate_models_metrics_split t = Inl ValueError \<longleftrightarrow>
            (\<exists>m\<in>set (group_keys True (column t Columns_Model)).
               fold_ids_of t m \<noteq> fold_ids_of t (hd (group_keys True (column t Columns_Model))))) \<and>
         (validate_models_metrics_split t = Inr () \<longrightarrow>
            (\<forall>m\<in>set (column t Columns_Model). \<forall>m'\<in>set (column t Columns_Model).
               m \<noteq> NaN \<longrightarrow> m' \<noteq> NaN \<longrightarrow> fold_ids_of t m = fold_ids_of t m'))"
proof (cases "Columns_Model \<in> set (columns t)")
  case False
  then have "validate_models_metrics_split t = Inl KeyError"
    using split by (simp add: validate_models_metrics_split_def groupby_def getitem_absent)
  moreover from False have "column t Columns_Model = []" by (rule column_absent)
  ultimately show ?thesis by (simp add: group_keys_def unique_def)
next
  case True
  define ms where "ms = column t Columns_Model"
  define ss where "ss = column t Columns_Split"
  define keys where "keys = group_keys True ms"
  define F where "F = (\<lambda>g :: cell \<times> frame. pick (map (\<lambda>v. py_eq v (fst g)) ms) ss)"
  define grouped where
    "grouped = map (\<lambda>k. (k, getitem_mask t (map (\<lambda>v. py_eq v k) ms))) keys"
  have gm: "getitem t Columns_Model = Inr ms"
    using True by (simp add: ms_def getitem_column)
  have gs: "getitem t Columns_Split = Inr ss"
    using split by (simp add: ss_def getitem_column)
  have grp: "groupby t Columns_Model True = Inr grouped"
    by (simp add: groupby_def gm grouped_def keys_def)
  have folds: "\<forall>g\<in>set grouped. getitem (snd g) ''i_split'' = Inr (F g)"
    using gs by (auto simp: grouped_def F_def getitem_getitem_mask Columns_Split_def)
  have ids: "py_key ` set (F g) = fold_ids_of t (fst g)" for g
    by (simp add: F_def fold_ids_of_pick ms_def ss_def)
  show ?thesis
  proof (cases keys)
    case Nil
    then have "validate_models_metrics_split t = Inl StopIteration"
      using split grp by (simp add: validate_models_metrics_split_def grouped_def)
    moreover have "group_keys True (column t Columns_Model) = []"
      using Nil by (simp add: keys_def ms_def)
    ultimately show ?thesis by simp
  next
    case (Cons k ks)
    then obtain g gs' where g: "grouped = g # gs'" and fg: "fst g = k"
      by (auto simp: grouped_def)
    have gin: "g \<in> set grouped" using g by simp
    have ref: "getitem (snd g) Columns_Split = Inr (F g)"
      using folds gin by (simp add: Columns_Split_def)
    have val: "validate_models_metrics_split t =
        check_groups (nunique (F g)) (set (map py_key (unique (F g)))) grouped"
      using split grp g ref by (simp add: validate_models_metrics_split_def)
    have bad: "(nunique (F h) \<noteq> nunique (F g) \<or>
                  \<not> py_set_eq (set (map py_key (unique (F h)))) (set (map py_key (unique (F g)))))
               \<longleftrightarrow> fold_ids_of t (fst h) \<noteq> fold_ids_of t k" for h
    proof -
      have s: "set (map py_key (unique (F x))) = fold_ids_of t (fst x)" for x
        using set_key_unique [of "F x"] ids [of x] by (simp only:)
      have n: "nunique (F x) = card (fold_ids_of t (fst x) - {NaN})" for x
        using nunique_card [of "F x"] ids [of x] by (simp only:)
      have p: "NaN \<notin> fold_ids_of t m" for m
      proof
        assume "NaN \<in> fold_ids_of t m"
        then obtain x y where
            xy: "(x, y) \<in> set (zip (column t Columns_Model) (column t Columns_Split))"
            and "py_key y = NaN"
          by (auto simp: fold_ids_of_def)
        then have "y = NaN" by (simp add: py_key_NaN)
        moreover from xy have "y \<in> set (column t Columns_Split)"
          by (rule set_zip_rightD)
        ultimately show False using folds_present by simp
      qed
      show ?thesis unfolding s n fg by (auto simp: py_set_eq_def p)
    qed
    have res: "validate_models_metrics_split t =
        (if \<exists>h\<in>set grouped. fold_ids_of t (fst h) \<noteq> fold_ids_of t k
         then Inl ValueError else Inr ())"
      unfolding val check_groups_iff [OF folds] bad ..
    have fsts: "fst ` set grouped = set keys"
      by (force simp: grouped_def)
    have ex: "(\<exists>h\<in>set grouped. fold_ids_of t (fst h) \<noteq> fold_ids_of t k) \<longleftrightarrow>
              (\<exists>m\<in>set keys. fold_ids_of t m \<noteq> fold_ids_of t k)"
      unfolding fsts [symmetric] by blast
    have hdk: "hd (group_keys True (column t Columns_Model)) = k"
      using Cons by (simp add: keys_def ms_def)
    have first: "validate_models_metrics_split t = Inl ValueError \<longleftrightarrow>
            (\<exists>m\<in>set (group_keys True (column t Columns_Model)).
               fold_ids_of t m \<noteq> fold_ids_of t (hd (group_keys True (column t Columns_Model))))"
      unfolding hdk unfolding res ex by (simp add: keys_def ms_def)
    have second: "fold_ids_of t m = fold_ids_of t m'"
      if ok: "validate_models_metrics_split t = Inr ()"
        and m: "m \<in> set (column t Columns_Model)" "m \<noteq> NaN"
        and m': "m' \<in> set (column t Columns_Model)" "m' \<noteq> NaN" for m m'
    proof -
      from ok have all: "\<forall>x\<in>set keys. fold_ids_of t x = fold_ids_of t k"
        unfolding res ex by (auto split: if_splits)
      have "fold_ids_of t x = fold_ids_of t k"
        if "x \<in> set (column t Columns_Model)" "x \<noteq> NaN" for x
      proof -
        from that obtain k' where k': "k' \<in> set keys" "py_key k' = py_key x"
          using group_keys_cover [of x "column t Columns_Model" True]
          by (auto simp: keys_def ms_def)
        from k' have "k' \<noteq> NaN" using group_keys_not_NaN [of k' True ms]
          by (simp add: keys_def)
        with k' that have "fold_ids_of t k' = fold_ids_of t x"
          by (intro fold_ids_of_key)
        with all k' show ?thesis by simp
      qed
      with m m' show ?thesis by simp
    qed
    from first second show ?thesis by blast
  qed
qed

text \<open>
  The table of the test suite passes and its two models have the same folds; the table
  with a renumbered fold is refused, and a model differs from the reference model.
\<close>

theorem validate_models_metrics_split_iff_witness:
  "Columns_Split \<in> set (columns DF_METRICS) \<and>
   NaN \<notin> set (column DF_METRICS Columns_Split) \<and>
   validate_models_metrics_split DF_METRICS = Inr () \<and>
   StrV ''Model1'' \<in> set (column DF_METRICS Columns_Model) \<and>
   StrV ''Model2'' \<in> set (column DF_METRICS Columns_Model) \<and>
   fold_ids_of DF_METRICS (StrV ''Model1'') = fold_ids_of DF_METRICS (StrV ''Model2'') \<and>
   Columns_Split \<in> set (columns DF_METRICS_FOLDS_DIFFER) \<and>
   NaN \<notin> set (column DF_METRICS_FOLDS_DIFFER Columns_Split) \<and>
   validate_models_metrics_split DF_METRICS_FOLDS_DIFFER = Inl ValueError \<and>
   (\<exists>m\<in>set (group_keys True (column DF_METRICS_FOLDS_DIFFER Columns_Model)).
      fold_ids_of DF_METRICS_FOLDS_DIFFER m \<noteq>
      fold_ids_of DF_METRICS_FOLDS_DIFFER
        (hd (group_keys True (column DF_METRICS_FOLDS_DIFFER Columns_Model))))"
proof -
  have s1: "Columns_Split \<in> set (columns DF_METRICS)"
    by (simp add: columns_def DF_METRICS_def Columns_Split_def)
  have s2: "Columns_Split \<in> set (columns DF_METRICS_FOLDS_DIFFER)"
    by (simp add: columns_def DF_METRICS_FOLDS_DIFFER_def Columns_Split_def)
  have n1: "NaN \<notin> set (column DF_METRICS Columns_Split)"
    by (simp add: column_def DF_METRICS_def Columns_Split_def)
  have n2: "NaN \<notin> set (column DF_METRICS_FOLDS_DIFFER Columns_Split)"
    by (simp add: column_def DF_METRICS_FOLDS_DIFFER_def Columns_Split_def)
  have v1: "validate_models_metrics_split DF_METRICS = Inr ()"
    by code_simp
  have v2: "validate_models_metrics_split DF_METRICS_FOLDS_DIFFER = Inl ValueError"
    by code_simp
  have m: "StrV ''Model1'' \<in> set (column DF_METRICS Columns_Model) \<and>
           StrV ''Model2'' \<in> set (column DF_METRICS Columns_Model)"
    by (simp add: column_def DF_METRICS_def Columns_Model_def)
  from validate_models_metrics_split_iff [OF s1 n1] v1 m
  have e: "fold_ids_of DF_METRICS (StrV ''Model1'') = fold_ids_of DF_METRICS (StrV ''Model2'')"
    by blast
  from validate_models_metrics_split_iff [OF s2 n2] v2
  have d: "\<exists>m\<in>set (group_keys True (column DF_METRICS_FOLDS_DIFFER Columns_Model)).
      fold_ids_of DF_METRICS_FOLDS_DIFFER m \<noteq>
      fold_ids_of DF_METRICS_FOLDS_DIFFER
        (hd (group_keys True (column DF_METRICS_FOLDS_DIFFER Columns_Model)))"
    by blast
  from s1 s2 n1 n2 v1 v2 m e d show ?thesis by blast
qed

text \<open>
  A fold identifier that is missing is outside that statement, and the validator refuses
  the table whatever the other folds are: here both models have the fold 0 and a missing
  fold.
\<close>

lemma validate_models_metrics_split_missing_fold:
  "NaN \<in> set (column DF_METRICS_FOLD_MISSING Columns_Split) \<and>
   fold_ids_of DF_METRICS_FOLD_MISSING (StrV ''Model1'') =
     fold_ids_of DF_METRICS_FOLD_MISSING (StrV ''Model2'') \<and>
   validate_models_metrics_split DF_METRICS_FOLD_MISSING = Inl ValueError"
  by code_simp

section \<open>Uniqueness of the identifiers\<close>

text \<open>
  Claim C3, as amended. The uniqueness validator compares the identifiers it makes of the
  model values: their text with spaces replaced by underscores. On a table with a model
  column and no fold column it raises a value error exactly when two rows have the same
  identifier. On a table with a model column and a fold column it raises a value error
  whenever two rows have the same identifier and the same fold text, so whenever a pair of
  model and fold occurs twice. It never ends otherwise than with a value error or with
  success.
\<close>

theorem validate_models_metrics_names_unique:
  assumes m: "Columns_Model \<in> set (columns t)"
  shows "(Columns_Split \<notin> set (columns t) \<longrightarrow>
            (snd (validate_models_metrics_names fr t) = Inl ValueError \<longleftrightarrow>
               \<not> distinct (map (model_id fr) (column t Columns_Model)))) \<and>
         (Columns_Split \<in> set (columns t) \<longrightarrow>
            \<not> distinct (zip (map (model_id fr) (column t Columns_Model))
                           (map (astype_str fr) (column t Columns_Split))) \<longrightarrow>
            snd (validate_models_metrics_names fr t) = Inl ValueError) \<and>
         (Columns_Split \<in> set (columns t) \<longrightarrow>
            \<not> distinct (zip (column t Columns_Model) (column t Columns_Split)) \<longrightarrow>
            snd (validate_models_metrics_names fr t) = Inl ValueError) \<and>
         (snd (validate_models_metrics_names fr t) = Inl ValueError \<or>
          snd (validate_models_metrics_names fr t) = Inr ())"
proof -
  let ?ids = "map (model_id fr) (column t Columns_Model)"
  let ?folds = "map (astype_str fr) (column t Columns_Split)"
  have comb: "map2 str_add ?ids ?folds = map (\<lambda>p. str_add (fst p) (snd p)) (zip ?ids ?folds)"
    by (simp add: case_prod_beta)
  have a: "\<not> distinct (map2 str_add ?ids ?folds)" if "\<not> distinct (zip ?ids ?folds)"
    using that unfolding comb by (simp add: distinct_map)
  have z: "zip ?ids ?folds =
      map (\<lambda>p. (model_id fr (fst p), astype_str fr (snd p)))
        (zip (column t Columns_Model) (column t Columns_Split))"
    by (simp add: zip_map_map case_prod_beta)
  have b: "\<not> distinct (zip ?ids ?folds)"
    if "\<not> distinct (zip (column t Columns_Model) (column t Columns_Split))"
    using that unfolding z by (simp add: distinct_map)
  show ?thesis
  proof (cases "Columns_Split \<in> set (columns t)")
    case True
    with a b show ?thesis
      by (auto simp: validate_names_split [OF m True])
  next
    case False
    then show ?thesis
      by (simp add: validate_names_nosplit [OF m False])
  qed
qed

text \<open>
  Two model values that differ, a space against an underscore, with no fold column: no
  model value occurs more than once, and the validator raises.
\<close>

theorem validate_models_metrics_names_counterexample:
  "Columns_Split \<notin> set (columns metrics_space_underscore) \<and>
   distinct (column metrics_space_underscore Columns_Model) \<and>
   snd (validate_models_metrics_names repr0 metrics_space_underscore) = Inl ValueError"
  by code_simp

text \<open>The same table, and a table that lists a model twice for one fold.\<close>

theorem validate_models_metrics_names_unique_witness:
  "Columns_Model \<in> set (columns metrics_space_underscore) \<and>
   Columns_Split \<notin> set (columns metrics_space_underscore) \<and>
   \<not> distinct (map (model_id repr0) (column metrics_space_underscore Columns_Model)) \<and>
   snd (validate_models_metrics_names repr0 metrics_space_underscore) = Inl ValueError \<and>
   Columns_Model \<in> set (columns metrics_pair_repeated) \<and>
   Columns_Split \<in> set (columns metrics_pair_repeated) \<and>
   \<not> distinct (zip (column metrics_pair_repeated Columns_Model)
                  (column metrics_pair_repeated Columns_Split)) \<and>
   \<not> distinct (zip (map (model_id repr0) (column metrics_pair_repeated Columns_Model))
                  (map (astype_str repr0) (column metrics_pair_repeated Columns_Split))) \<and>
   snd (validate_models_metrics_names repr0 metrics_pair_repeated) = Inl ValueError"
proof -
  have a: "Columns_Model \<in> set (columns metrics_space_underscore)"
    by code_simp
  have b: "Columns_Split \<notin> set (columns metrics_space_underscore)"
    by code_simp
  have c: "\<not> distinct (map (model_id repr0) (column metrics_space_underscore Columns_Model))"
    by code_simp
  have d: "Columns_Model \<in> set (columns metrics_pair_repeated)"
    by code_simp
  have e: "Columns_Split \<in> set (columns metrics_pair_repeated)"
    by code_simp
  have f: "\<not> distinct (zip (column metrics_pair_repeated Columns_Model)
                  (column metrics_pair_repeated Columns_Split))"
    by code_simp
  from b c validate_models_metrics_names_unique [OF a, of repr0]
  have g: "snd (validate_models_metrics_names repr0 metrics_space_underscore) = Inl ValueError"
    by blast
  have f': "\<not> distinct (zip (map (model_id repr0) (column metrics_pair_repeated Columns_Model))
                  (map (astype_str repr0) (column metrics_pair_repeated Columns_Split)))"
    by code_simp
  from e f validate_models_metrics_names_unique [OF d, of repr0]
  have h: "snd (validate_models_metrics_names repr0 metrics_pair_repeated) = Inl ValueError"
    by blast
  from a b c d e f f' g h show ?thesis by blast
qed

text \<open>
  With a fold column the validator writes identifier and fold one after the other, with
  nothing between them. Two rows that differ in model and in fold can so give one text,
  and the validator raises; the statement above says nothing of such tables.
\<close>

lemma validate_models_metrics_names_joined_text:
  "Columns_Split \<in> set (columns metrics_joined_text) \<and>
   distinct (zip (map (model_id repr0) (column metrics_joined_text Columns_Model))
                 (map (astype_str repr0) (column metrics_joined_text Columns_Split))) \<and>
   snd (validate_models_metrics_names repr0 metrics_joined_text) = Inl ValueError"
  by code_simp

section \<open>What the uniqueness validator does to its input\<close>

text \<open>
  Claim C4. The validator is to leave the metrics table as it found it. On a table whose
  model names hold spaces it succeeds and hands the table back with the model column
  overwritten by the identifiers.
\<close>

theorem validate_models_metrics_names_overwrites_input:
  "validate_models_metrics_names repr0 metrics_spaced =
     (setitem metrics_spaced Columns_Model
        [StrV ''Model_1'', StrV ''Model_2'', StrV ''Model_1'', StrV ''Model_2''], Inr ()) \<and>
   column metrics_spaced Columns_Model =
     [StrV ''Model 1'', StrV ''Model 2'', StrV ''Model 1'', StrV ''Model 2''] \<and>
   column (fst (validate_models_metrics_names repr0 metrics_spaced)) Columns_Model =
     [StrV ''Model_1'', StrV ''Model_2'', StrV ''Model_1'', StrV ''Model_2''] \<and>
   fst (validate_models_metrics_names repr0 metrics_spaced) \<noteq> metrics_spaced"
  by code_simp

section \<open>The join with the metadata\<close>

text \<open>
  Claim C1. Metrics and metadata that name their models with spaces both pass validation,
  and every metadata value of the application's data is missing: the validator has
  rewritten the model column of the metrics before the join, the metadata keep their
  spaces, and no key of the left side finds its row. With names free of spaces, as in the
  documented example, every row finds its metadata.
\<close>

theorem construct_loses_metadata_of_spaced_names:
  "validate_models_metrics_base (DataFrame metrics_spaced) = Inr () \<and>
   validate_models_metrics_split metrics_spaced = Inr () \<and>
   snd (validate_models_metrics_names repr0 metrics_spaced) = Inr () \<and>
   validate_models_metadata (DataFrame metadata_spaced) = Inr () \<and>
   map_sum id (\<lambda>a. (column (data a) Columns_Model, column (data a) ''factors''))
     (snd (construct repr0 (DataFrame metrics_spaced) (Some (DataFrame metadata_spaced))
             True False None)) =
     Inr ([StrV ''Model_1'', StrV ''Model_2'', StrV ''Model_1'', StrV ''Model_2''],
          [NaN, NaN, NaN, NaN]) \<and>
   map_sum id (\<lambda>a. (column (data a) Columns_Model, column (data a) ''factors''))
     (snd (construct repr0 (DataFrame DF_METRICS) (Some (DataFrame metadata_df))
             True False None)) =
     Inr ([StrV ''Model1'', StrV ''Model2'', StrV ''Model1'', StrV ''Model2'',
           StrV ''Model1'', StrV ''Model2''],
          [IntV 64, IntV 32, IntV 64, IntV 32, IntV 64, IntV 32])"
  by code_simp

section \<open>The fold view and its memo table\<close>

text \<open>
  Claim C8. Take an application that construction has built and let it serve any
  requests. If its data have a fold column, the fold view asked for next is returned; each
  of its columns holds the values of the data's column on the rows whose fold equals the
  fold asked for, and its row labels are \<open>0, 1, 2, ...\<close>, one for each of these rows.
  Asked for the same fold once more, the object returns the same result.
\<close>

theorem fold_view_memoized:
  assumes c: "snd (construct fr mm md sl ad kw) = Inr a"
  shows "(Columns_Split \<in> set (columns (data a)) \<longrightarrow>
            (\<exists>v. fst (make_chart_data_fold (run a rs) k) = Inr v \<and>
                 index v = range_index (length (filter (\<lambda>x. py_eq x k)
                                                  (column (data a) Columns_Split))) \<and>
                 cols v = map (\<lambda>c. (fst c, map snd (filter (\<lambda>p. py_eq (fst p) k)
                                   (zip (column (data a) Columns_Split) (snd c)))))
                            (cols (data a)))) \<and>
         fst (make_chart_data_fold (snd (make_chart_data_fold (run a rs) k)) k) =
           fst (make_chart_data_fold (run a rs) k)"
proof -
  from construct_app [OF c] have "fold_cache a = []" by simp
  then have "\<forall>e\<in>set (fold_cache a). chart_data_fold (data a) (fst e) = Inr (snd e)"
    by simp
  then have inv: "\<forall>e\<in>set (fold_cache (run a rs)).
      chart_data_fold (data (run a rs)) (fst e) = Inr (snd e)"
    using cache_run [of a rs] by (simp add: data_run)
  have first: "fst (make_chart_data_fold (run a rs) k) = chart_data_fold (data a) k"
    using fst_make_chart_data_fold [OF inv] by (simp add: data_run)
  have inv': "\<forall>e\<in>set (fold_cache (snd (make_chart_data_fold (run a rs) k))).
      chart_data_fold (data (snd (make_chart_data_fold (run a rs) k))) (fst e) = Inr (snd e)"
    using cache_make_chart_data_fold [OF inv] by (simp add: data_make_chart_data_fold)
  have second: "fst (make_chart_data_fold (snd (make_chart_data_fold (run a rs) k)) k) =
      chart_data_fold (data a) k"
    using fst_make_chart_data_fold [OF inv'] by (simp add: data_make_chart_data_fold data_run)
  have view: "\<exists>v. chart_data_fold (data a) k = Inr v \<and>
                 index v = range_index (length (filter (\<lambda>x. py_eq x k)
                                                  (column (data a) Columns_Split))) \<and>
                 cols v = map (\<lambda>c. (fst c, map snd (filter (\<lambda>p. py_eq (fst p) k)
                                   (zip (column (data a) Columns_Split) (snd c)))))
                            (cols (data a))"
    if s: "Columns_Split \<in> set (columns (data a))"
  proof -
    have "length (pick (map (\<lambda>v. py_eq v k) (column (data a) Columns_Split)) (index (data a))) =
        length (filter (\<lambda>x. py_eq x k) (column (data a) Columns_Split))"
      by (rule length_pick_map) (rule constructed_data_lengths [OF c s])
    with s show ?thesis
      by (simp add: chart_data_fold_def getitem_column reset_index_def getitem_mask_def pick_map)
  qed
  from first second view show ?thesis by simp
qed

text \<open>
  The application of the test suite's table, after an average view and the view of fold
  0, asked twice for fold 1.
\<close>

theorem fold_view_memoized_witness:
  "snd (construct repr0 (DataFrame DF_METRICS) None True False None) = Inr DF_METRICS_app \<and>
   Columns_Split \<in> set (columns (data DF_METRICS_app)) \<and>
   (\<exists>v. fst (make_chart_data_fold (run DF_METRICS_app [AverageView, FoldView (IntV 0)]) (IntV 1))
           = Inr v \<and>
        index v = range_index (length (filter (\<lambda>x. py_eq x (IntV 1))
                                         (column (data DF_METRICS_app) Columns_Split))) \<and>
        cols v = map (\<lambda>c. (fst c, map snd (filter (\<lambda>p. py_eq (fst p) (IntV 1))
                          (zip (column (data DF_METRICS_app) Columns_Split) (snd c)))))
                   (cols (data DF_METRICS_app))) \<and>
   fst (make_chart_data_fold
          (snd (make_chart_data_fold (run DF_METRICS_app [AverageView, FoldView (IntV 0)])
                 (IntV 1))) (IntV 1)) =
     fst (make_chart_data_fold (run DF_METRICS_app [AverageView, FoldView (IntV 0)]) (IntV 1))"
proof -
  have c: "snd (construct repr0 (DataFrame DF_METRICS) None True False None) = Inr DF_METRICS_app"
    by code_simp
  have s: "Columns_Split \<in> set (columns (data DF_METRICS_app))"
    by code_simp
  from c s fold_view_memoized [OF c, of "[AverageView, FoldView (IntV 0)]" "IntV 1"]
  show ?thesis by blast
qed

text \<open>The view of fold 1 itself.\<close>

lemma fold_view_DF_METRICS:
  "fst (make_chart_data_fold (run DF_METRICS_app [AverageView, FoldView (IntV 0)]) (IntV 1)) =
     Inr \<lparr>index = [0, 1], cols = [
       (''model'', [StrV ''Model1'', StrV ''Model2'']),
       (''i_split'', [IntV 1, IntV 1]),
       (''prec@10'', [FltV (3 / 10), FltV (2 / 5)]),
       (''recall'', [FltV (3 / 10), FltV (2 / 5)])]\<rparr>"
  by code_simp

section \<open>The model names of an application\<close>

text \<open>
  Claim C10. Take an application that construction has built of a metrics table and let it
  serve any requests. No value in the model column of its data holds a space; the query
  for the model names returns, sorted and without repetition, exactly the identifiers of
  the model values of the metrics table, that is their text with spaces replaced by
  underscores; and the data are those that construction stored.
\<close>

theorem model_names_normalized:
  assumes c: "snd (construct fr (DataFrame t) md sl ad kw) = Inr a"
  shows "(\<forall>v\<in>set (column (data (run a rs)) Columns_Model).
            \<exists>s. v = StrV s \<and> CHR '' '' \<notin> set s) \<and>
         (\<exists>names. model_names (run a rs) = Inr names \<and>
            set names = model_id fr ` set (column t Columns_Model) \<and>
            distinct names \<and> sorted (map sort_rank names)) \<and>
         data (run a rs) = data a"
proof -
  let ?col = "column (data a) Columns_Model"
  have col: "set ?col = model_id fr ` set (column t Columns_Model)"
    by (rule construct_model_column [OF c])
  have all: "\<forall>v\<in>set ?col. \<exists>s. v = StrV s \<and> CHR '' '' \<notin> set s"
    unfolding col using model_id_StrV [of fr] by blast
  then have strs: "\<forall>v\<in>set ?col. is_str v"
    by (auto simp: is_str_def)
  from set_unique_strings [OF strs]
  have u: "set (unique ?col) = set ?col" and d: "distinct (unique ?col)" by simp_all
  from u strs have "list_all is_str (unique ?col)"
    by (simp add: list_all_iff)
  then have "py_sorted (unique ?col) = Inr (sort_key sort_rank (unique ?col))"
    by (simp add: py_sorted_def)
  then have "model_names (run a rs) = Inr (sort_key sort_rank (unique ?col))"
    by (simp add: model_names_def data_run construct_model_getitem [OF c])
  moreover have "set (sort_key sort_rank (unique ?col)) = model_id fr ` set (column t Columns_Model)"
    using u col by simp
  moreover have "distinct (sort_key sort_rank (unique ?col))"
    using d by simp
  moreover have "sorted (map sort_rank (sort_key sort_rank (unique ?col)))"
    by (rule sorted_sort_key)
  ultimately have names: "\<exists>names. model_names (run a rs) = Inr names \<and>
            set names = model_id fr ` set (column t Columns_Model) \<and>
            distinct names \<and> sorted (map sort_rank names)"
    by blast
  from all names show ?thesis by (simp add: data_run)
qed

text \<open>
  The application of the tables whose model names hold spaces: the names it reports are
  not the names that were handed in.
\<close>

theorem model_names_normalized_witness:
  "snd (construct repr0 (DataFrame metrics_spaced) (Some (DataFrame metadata_spaced))
          True False None) = Inr metrics_spaced_app \<and>
   model_names (run metrics_spaced_app [AverageView, FoldView (IntV 0)]) =
     Inr [StrV ''Model_1'', StrV ''Model_2''] \<and>
   column metrics_spaced Columns_Model =
     [StrV ''Model 1'', StrV ''Model 2'', StrV ''Model 1'', StrV ''Model 2''] \<and>
   (\<exists>names. model_names (run metrics_spaced_app [AverageView, FoldView (IntV 0)]) = Inr names \<and>
      set names = model_id repr0 ` set (column metrics_spaced Columns_Model) \<and>
      distinct names \<and> sorted (map sort_rank names)) \<and>
   data (run metrics_spaced_app [AverageView, FoldView (IntV 0)]) = data metrics_spaced_app"
proof -
  have c: "snd (construct repr0 (DataFrame metrics_spaced) (Some (DataFrame metadata_spaced))
          True False None) = Inr metrics_spaced_app"
    by code_simp
  have n: "model_names (run metrics_spaced_app [AverageView, FoldView (IntV 0)]) =
     Inr [StrV ''Model_1'', StrV ''Model_2'']"
    by code_simp
  have m: "column metrics_spaced Columns_Model =
     [StrV ''Model 1'', StrV ''Model 2'', StrV ''Model 1'', StrV ''Model 2'']"
    by code_simp
  from c n m model_names_normalized [OF c, of "[AverageView, FoldView (IntV 0)]"]
  show ?thesis by blast
qed

section \<open>The average view\<close>



end
